theory Spec2Isabelle
  imports Complex_Main "HOL-Library.Sublist" "HOL-Library.AList" "HOL-Library.Log_Nat"
begin

section \<open>JavaScript values\<close>

text \<open>
  A JavaScript string is a sequence of UTF-16 code units; a code unit is modelled as a
  natural number. ASCII literals of the source are written with \<open>asc\<close>, the other
  literals as their code units.
\<close>

type_synonym ustring = "nat list"

definition asc :: "string \<Rightarrow> ustring" where
  "asc s = map of_char s"

text \<open>
  Numbers are IEEE doubles in the source. The model keeps the three special values that
  the source's tests (\<open>isNaN\<close>, truthiness, comparisons) can tell apart and takes a
  finite number as the exact rational it denotes. The functions that read a number from
  text round it to the nearest double (\<open>number_value\<close> below).
\<close>

datatype jsnum = NaN | PosInf | NegInf | Fin rat

text \<open>The relational operators \<open><\<close>, \<open><=\<close>, \<open>>\<close>, \<open>>=\<close> on numbers: false on NaN.\<close>

fun num_lt :: "jsnum \<Rightarrow> jsnum \<Rightarrow> bool" where
  "num_lt NaN _ = False"
| "num_lt _ NaN = False"
| "num_lt (Fin a) (Fin b) = (a < b)"
| "num_lt NegInf NegInf = False"
| "num_lt NegInf _ = True"
| "num_lt _ NegInf = False"
| "num_lt PosInf _ = False"
| "num_lt _ PosInf = True"

fun num_le :: "jsnum \<Rightarrow> jsnum \<Rightarrow> bool" where
  "num_le NaN _ = False"
| "num_le _ NaN = False"
| "num_le a b = (a = b \<or> num_lt a b)"

definition num_gt :: "jsnum \<Rightarrow> jsnum \<Rightarrow> bool" where
  "num_gt a b = num_lt b a"

definition num_ge :: "jsnum \<Rightarrow> jsnum \<Rightarrow> bool" where
  "num_ge a b = num_le b a"

definition isNaN :: "jsnum \<Rightarrow> bool" where
  "isNaN n = (n = NaN)"

text \<open>
  A cell of a sheet, and more generally a value of type \<open>any\<close> as the source handles it:
  \<open>null\<close>, \<open>undefined\<close>, a string, a number or a boolean.
\<close>

datatype cell = JNull | JUndefined | JStr ustring | JNum jsnum | JBool bool

text \<open>Truthiness, as tested by \<open>if (v)\<close>, \<open>v || d\<close> and \<open>filter(Boolean)\<close>.\<close>

fun truthy :: "cell \<Rightarrow> bool" where
  "truthy JNull = False"
| "truthy JUndefined = False"
| "truthy (JStr s) = (s \<noteq> [])"
| "truthy (JNum n) = (n \<noteq> NaN \<and> n \<noteq> Fin 0)"
| "truthy (JBool b) = b"

text \<open>\<open>v || d\<close>\<close>

definition js_or :: "cell \<Rightarrow> cell \<Rightarrow> cell" where
  "js_or v d = (if truthy v then v else d)"

text \<open>\<open>row[i]\<close> on an array: \<open>undefined\<close> past the end.\<close>

definition cell_at :: "cell list \<Rightarrow> nat \<Rightarrow> cell" where
  "cell_at row i = (if i < length row then row ! i else JUndefined)"

section \<open>String built-ins\<close>

text \<open>\<open>s.includes(pat)\<close>: \<open>pat\<close> occurs in \<open>s\<close> as a contiguous run.\<close>

fun str_includes :: "'a list \<Rightarrow> 'a list \<Rightarrow> bool" where
  "str_includes [] pat = (pat = [])"
| "str_includes (x # xs) pat = (prefix pat (x # xs) \<or> str_includes xs pat)"

text \<open>\<open>s.replace(a, b)\<close> with one-character strings: the first occurrence only.\<close>

fun replace_first :: "nat \<Rightarrow> nat \<Rightarrow> ustring \<Rightarrow> ustring" where
  "replace_first a b [] = []"
| "replace_first a b (c # cs) = (if c = a then b # cs else c # replace_first a b cs)"

text \<open>White space and line terminators, as \<open>trim\<close> and \<open>parseFloat\<close> skip them.\<close>

definition is_ws :: "nat \<Rightarrow> bool" where
  "is_ws c = (c \<in> set [9, 10, 11, 12, 13, 32, 160, 5760, 8232, 8233, 8239, 8287, 12288, 65279]
              \<or> (8192 \<le> c \<and> c \<le> 8202))"

definition trim :: "ustring \<Rightarrow> ustring" where
  "trim s = rev (dropWhile is_ws (rev (dropWhile is_ws s)))"

subsection \<open>Canonical decomposition\<close>

text \<open>
  \<open>s.normalize('NFD')\<close>. The decomposition is tabulated for every code point whose
  canonical decomposition contains an ASCII letter or digit (Unicode 14: 490 code points,
  all of the form base letter followed by combining marks of U+0300..U+036F). The other
  code points stand for themselves here: their decompositions contain no ASCII letter,
  no digit and no d-with-stroke, so whatever they decompose to is deleted by the last
  step of \<open>normalizeString\<close>.
\<close>

definition nfd_00C0 :: "(nat \<times> nat list) list" where
  "nfd_00C0 =
    [(192, [65, 768]), (193, [65, 769]), (194, [65, 770]), (195, [65, 771]),
     (196, [65, 776]), (197, [65, 778]), (199, [67, 807]), (200, [69, 768]),
     (201, [69, 769]), (202, [69, 770]), (203, [69, 776]), (204, [73, 768]),
     (205, [73, 769]), (206, [73, 770]), (207, [73, 776]), (209, [78, 771]),
     (210, [79, 768]), (211, [79, 769]), (212, [79, 770]), (213, [79, 771]),
     (214, [79, 776]), (217, [85, 768]), (218, [85, 769]), (219, [85, 770]),
     (220, [85, 776]), (221, [89, 769])]"

definition nfd_00E0 :: "(nat \<times> nat list) list" where
  "nfd_00E0 =
    [(224, [97, 768]), (225, [97, 769]), (226, [97, 770]), (227, [97, 771]),
     (228, [97, 776]), (229, [97, 778]), (231, [99, 807]), (232, [101, 768]),
     (233, [101, 769]), (234, [101, 770]), (235, [101, 776]), (236, [105, 768]),
     (237, [105, 769]), (238, [105, 770]), (239, [105, 776]), (241, [110, 771]),
     (242, [111, 768]), (243, [111, 769]), (244, [111, 770]), (245, [111, 771]),
     (246, [111, 776]), (249, [117, 768]), (250, [117, 769]), (251, [117, 770]),
     (252, [117, 776]), (253, [121, 769]), (255, [121, 776])]"

definition nfd_0100 :: "(nat \<times> nat list) list" where
  "nfd_0100 =
    [(256, [65, 772]), (257, [97, 772]), (258, [65, 774]), (259, [97, 774]),
     (260, [65, 808]), (261, [97, 808]), (262, [67, 769]), (263, [99, 769]),
     (264, [67, 770]), (265, [99, 770]), (266, [67, 775]), (267, [99, 775]),
     (268, [67, 780]), (269, [99, 780]), (270, [68, 780]), (271, [100, 780]),
     (274, [69, 772]), (275, [101, 772]), (276, [69, 774]), (277, [101, 774]),
     (278, [69, 775]), (279, [101, 775]), (280, [69, 808]), (281, [101, 808]),
     (282, [69, 780]), (283, [101, 780]), (284, [71, 770]), (285, [103, 770]),
     (286, [71, 774]), (287, [103, 774])]"

definition nfd_0120 :: "(nat \<times> nat list) list" where
  "nfd_0120 =
    [(288, [71, 775]), (289, [103, 775]), (290, [71, 807]), (291, [103, 807]),
     (292, [72, 770]), (293, [104, 770]), (296, [73, 771]), (297, [105, 771]),
     (298, [73, 772]), (299, [105, 772]), (300, [73, 774]), (301, [105, 774]),
     (302, [73, 808]), (303, [105, 808]), (304, [73, 775]), (308, [74, 770]),
     (309, [106, 770]), (310, [75, 807]), (311, [107, 807]), (313, [76, 769]),
     (314, [108, 769]), (315, [76, 807]), (316, [108, 807]), (317, [76, 780]),
     (318, [108, 780])]"

definition nfd_0140 :: "(nat \<times> nat list) list" where
  "nfd_0140 =
    [(323, [78, 769]), (324, [110, 769]), (325, [78, 807]), (326, [110, 807]),
     (327, [78, 780]), (328, [110, 780]), (332, [79, 772]), (333, [111, 772]),
     (334, [79, 774]), (335, [111, 774]), (336, [79, 779]), (337, [111, 779]),
     (340, [82, 769]), (341, [114, 769]), (342, [82, 807]), (343, [114, 807]),
     (344, [82, 780]), (345, [114, 780]), (346, [83, 769]), (347, [115, 769]),
     (348, [83, 770]), (349, [115, 770]), (350, [83, 807]), (351, [115, 807])]"

definition nfd_0160 :: "(nat \<times> nat list) list" where
  "nfd_0160 =
    [(352, [83, 780]), (353, [115, 780]), (354, [84, 807]), (355, [116, 807]),
     (356, [84, 780]), (357, [116, 780]), (360, [85, 771]), (361, [117, 771]),
     (362, [85, 772]), (363, [117, 772]), (364, [85, 774]), (365, [117, 774]),
     (366, [85, 778]), (367, [117, 778]), (368, [85, 779]), (369, [117, 779]),
     (370, [85, 808]), (371, [117, 808]), (372, [87, 770]), (373, [119, 770]),
     (374, [89, 770]), (375, [121, 770]), (376, [89, 776]), (377, [90, 769]),
     (378, [122, 769]), (379, [90, 775]), (380, [122, 775]), (381, [90, 780]),
     (382, [122, 780])]"

definition nfd_01A0 :: "(nat \<times> nat list) list" where
  "nfd_01A0 =
    [(416, [79, 795]), (417, [111, 795]), (431, [85, 795]), (432, [117, 795])]"

definition nfd_01C0 :: "(nat \<times> nat list) list" where
  "nfd_01C0 =
    [(461, [65, 780]), (462, [97, 780]), (463, [73, 780]), (464, [105, 780]),
     (465, [79, 780]), (466, [111, 780]), (467, [85, 780]), (468, [117, 780]),
     (469, [85, 776, 772]), (470, [117, 776, 772]), (471, [85, 776, 769]), (472, [117, 776, 769]),
     (473, [85, 776, 780]), (474, [117, 776, 780]), (475, [85, 776, 768]), (476, [117, 776, 768]),
     (478, [65, 776, 772]), (479, [97, 776, 772])]"

definition nfd_01E0 :: "(nat \<times> nat list) list" where
  "nfd_01E0 =
    [(480, [65, 775, 772]), (481, [97, 775, 772]), (486, [71, 780]), (487, [103, 780]),
     (488, [75, 780]), (489, [107, 780]), (490, [79, 808]), (491, [111, 808]),
     (492, [79, 808, 772]), (493, [111, 808, 772]), (496, [106, 780]), (500, [71, 769]),
     (501, [103, 769]), (504, [78, 768]), (505, [110, 768]), (506, [65, 778, 769]),
     (507, [97, 778, 769])]"

definition nfd_0200 :: "(nat \<times> nat list) list" where
  "nfd_0200 =
    [(512, [65, 783]), (513, [97, 783]), (514, [65, 785]), (515, [97, 785]),
     (516, [69, 783]), (517, [101, 783]), (518, [69, 785]), (519, [101, 785]),
     (520, [73, 783]), (521, [105, 783]), (522, [73, 785]), (523, [105, 785]),
     (524, [79, 783]), (525, [111, 783]), (526, [79, 785]), (527, [111, 785]),
     (528, [82, 783]), (529, [114, 783]), (530, [82, 785]), (531, [114, 785]),
     (532, [85, 783]), (533, [117, 783]), (534, [85, 785]), (535, [117, 785]),
     (536, [83, 806]), (537, [115, 806]), (538, [84, 806]), (539, [116, 806]),
     (542, [72, 780]), (543, [104, 780])]"

definition nfd_0220 :: "(nat \<times> nat list) list" where
  "nfd_0220 =
    [(550, [65, 775]), (551, [97, 775]), (552, [69, 807]), (553, [101, 807]),
     (554, [79, 776, 772]), (555, [111, 776, 772]), (556, [79, 771, 772]), (557, [111, 771, 772]),
     (558, [79, 775]), (559, [111, 775]), (560, [79, 775, 772]), (561, [111, 775, 772]),
     (562, [89, 772]), (563, [121, 772])]"

definition nfd_1E00 :: "(nat \<times> nat list) list" where
  "nfd_1E00 =
    [(7680, [65, 805]), (7681, [97, 805]), (7682, [66, 775]), (7683, [98, 775]),
     (7684, [66, 803]), (7685, [98, 803]), (7686, [66, 817]), (7687, [98, 817]),
     (7688, [67, 807, 769]), (7689, [99, 807, 769]), (7690, [68, 775]), (7691, [100, 775]),
     (7692, [68, 803]), (7693, [100, 803]), (7694, [68, 817]), (7695, [100, 817]),
     (7696, [68, 807]), (7697, [100, 807]), (7698, [68, 813]), (7699, [100, 813]),
     (7700, [69, 772, 768]), (7701, [101, 772, 768]), (7702, [69, 772, 769]), (7703, [101, 772, 769]),
     (7704, [69, 813]), (7705, [101, 813]), (7706, [69, 816]), (7707, [101, 816]),
     (7708, [69, 807, 774]), (7709, [101, 807, 774]), (7710, [70, 775]), (7711, [102, 775])]"

definition nfd_1E20 :: "(nat \<times> nat list) list" where
  "nfd_1E20 =
    [(7712, [71, 772]), (7713, [103, 772]), (7714, [72, 775]), (7715, [104, 775]),
     (7716, [72, 803]), (7717, [104, 803]), (7718, [72, 776]), (7719, [104, 776]),
     (7720, [72, 807]), (7721, [104, 807]), (7722, [72, 814]), (7723, [104, 814]),
     (7724, [73, 816]), (7725, [105, 816]), (7726, [73, 776, 769]), (7727, [105, 776, 769]),
     (7728, [75, 769]), (7729, [107, 769]), (7730, [75, 803]), (7731, [107, 803]),
     (7732, [75, 817]), (7733, [107, 817]), (7734, [76, 803]), (7735, [108, 803]),
     (7736, [76, 803, 772]), (7737, [108, 803, 772]), (7738, [76, 817]), (7739, [108, 817]),
     (7740, [76, 813]), (7741, [108, 813]), (7742, [77, 769]), (7743, [109, 769])]"

definition nfd_1E40 :: "(nat \<times> nat list) list" where
  "nfd_1E40 =
    [(7744, [77, 775]), (7745, [109, 775]), (7746, [77, 803]), (7747, [109, 803]),
     (7748, [78, 775]), (7749, [110, 775]), (7750, [78, 803]), (7751, [110, 803]),
     (7752, [78, 817]), (7753, [110, 817]), (7754, [78, 813]), (7755, [110, 813]),
     (7756, [79, 771, 769]), (7757, [111, 771, 769]), (7758, [79, 771, 776]), (7759, [111, 771, 776]),
     (7760, [79, 772, 768]), (7761, [111, 772, 768]), (7762, [79, 772, 769]), (7763, [111, 772, 769]),
     (7764, [80, 769]), (7765, [112, 769]), (7766, [80, 775]), (7767, [112, 775]),
     (7768, [82, 775]), (7769, [114, 775]), (7770, [82, 803]), (7771, [114, 803]),
     (7772, [82, 803, 772]), (7773, [114, 803, 772]), (7774, [82, 817]), (7775, [114, 817])]"

definition nfd_1E60 :: "(nat \<times> nat list) list" where
  "nfd_1E60 =
    [(7776, [83, 775]), (7777, [115, 775]), (7778, [83, 803]), (7779, [115, 803]),
     (7780, [83, 769, 775]), (7781, [115, 769, 775]), (7782, [83, 780, 775]), (7783, [115, 780, 775]),
     (7784, [83, 803, 775]), (7785, [115, 803, 775]), (7786, [84, 775]), (7787, [116, 775]),
     (7788, [84, 803]), (7789, [116, 803]), (7790, [84, 817]), (7791, [116, 817]),
     (7792, [84, 813]), (7793, [116, 813]), (7794, [85, 804]), (7795, [117, 804]),
     (7796, [85, 816]), (7797, [117, 816]), (7798, [85, 813]), (7799, [117, 813]),
     (7800, [85, 771, 769]), (7801, [117, 771, 769]), (7802, [85, 772, 776]), (7803, [117, 772, 776]),
     (7804, [86, 771]), (7805, [118, 771]), (7806, [86, 803]), (7807, [118, 803])]"

definition nfd_1E80 :: "(nat \<times> nat list) list" where
  "nfd_1E80 =
    [(7808, [87, 768]), (7809, [119, 768]), (7810, [87, 769]), (7811, [119, 769]),
     (7812, [87, 776]), (7813, [119, 776]), (7814, [87, 775]), (7815, [119, 775]),
     (7816, [87, 803]), (7817, [119, 803]), (7818, [88, 775]), (7819, [120, 775]),
     (7820, [88, 776]), (7821, [120, 776]), (7822, [89, 775]), (7823, [121, 775]),
     (7824, [90, 770]), (7825, [122, 770]), (7826, [90, 803]), (7827, [122, 803]),
     (7828, [90, 817]), (7829, [122, 817]), (7830, [104, 817]), (7831, [116, 776]),
     (7832, [119, 778]), (7833, [121, 778])]"

definition nfd_1EA0 :: "(nat \<times> nat list) list" where
  "nfd_1EA0 =
    [(7840, [65, 803]), (7841, [97, 803]), (7842, [65, 777]), (7843, [97, 777]),
     (7844, [65, 770, 769]), (7845, [97, 770, 769]), (7846, [65, 770, 768]), (7847, [97, 770, 768]),
     (7848, [65, 770, 777]), (7849, [97, 770, 777]), (7850, [65, 770, 771]), (7851, [97, 770, 771]),
     (7852, [65, 803, 770]), (7853, [97, 803, 770]), (7854, [65, 774, 769]), (7855, [97, 774, 769]),
     (7856, [65, 774, 768]), (7857, [97, 774, 768]), (7858, [65, 774, 777]), (7859, [97, 774, 777]),
     (7860, [65, 774, 771]), (7861, [97, 774, 771]), (7862, [65, 803, 774]), (7863, [97, 803, 774]),
     (7864, [69, 803]), (7865, [101, 803]), (7866, [69, 777]), (7867, [101, 777]),
     (7868, [69, 771]), (7869, [101, 771]), (7870, [69, 770, 769]), (7871, [101, 770, 769])]"

definition nfd_1EC0 :: "(nat \<times> nat list) list" where
  "nfd_1EC0 =
    [(7872, [69, 770, 768]), (7873, [101, 770, 768]), (7874, [69, 770, 777]), (7875, [101, 770, 777]),
     (7876, [69, 770, 771]), (7877, [101, 770, 771]), (7878, [69, 803, 770]), (7879, [101, 803, 770]),
     (7880, [73, 777]), (7881, [105, 777]), (7882, [73, 803]), (7883, [105, 803]),
     (7884, [79, 803]), (7885, [111, 803]), (7886, [79, 777]), (7887, [111, 777]),
     (7888, [79, 770, 769]), (7889, [111, 770, 769]), (7890, [79, 770, 768]), (7891, [111, 770, 768]),
     (7892, [79, 770, 777]), (7893, [111, 770, 777]), (7894, [79, 770, 771]), (7895, [111, 770, 771]),
     (7896, [79, 803, 770]), (7897, [111, 803, 770]), (7898, [79, 795, 769]), (7899, [111, 795, 769]),
     (7900, [79, 795, 768]), (7901, [111, 795, 768]), (7902, [79, 795, 777]), (7903, [111, 795, 777])]"

definition nfd_1EE0 :: "(nat \<times> nat list) list" where
  "nfd_1EE0 =
    [(7904, [79, 795, 771]), (7905, [111, 795, 771]), (7906, [79, 795, 803]), (7907, [111, 795, 803]),
     (7908, [85, 803]), (7909, [117, 803]), (7910, [85, 777]), (7911, [117, 777]),
     (7912, [85, 795, 769]), (7913, [117, 795, 769]), (7914, [85, 795, 768]), (7915, [117, 795, 768]),
     (7916, [85, 795, 777]), (7917, [117, 795, 777]), (7918, [85, 795, 771]), (7919, [117, 795, 771]),
     (7920, [85, 795, 803]), (7921, [117, 795, 803]), (7922, [89, 768]), (7923, [121, 768]),
     (7924, [89, 803]), (7925, [121, 803]), (7926, [89, 777]), (7927, [121, 777]),
     (7928, [89, 771]), (7929, [121, 771])]"

definition nfd_2120 :: "(nat \<times> nat list) list" where
  "nfd_2120 =
    [(8490, [75]), (8491, [65, 778])]"

text \<open>The table of the block of 32 code points with number \<open>p\<close>.\<close>

definition nfd_block :: "nat \<Rightarrow> (nat \<times> nat list) list" where
  "nfd_block p =
     (if p = 6 then nfd_00C0
      else if p = 7 then nfd_00E0
      else if p = 8 then nfd_0100
      else if p = 9 then nfd_0120
      else if p = 10 then nfd_0140
      else if p = 11 then nfd_0160
      else if p = 13 then nfd_01A0
      else if p = 14 then nfd_01C0
      else if p = 15 then nfd_01E0
      else if p = 16 then nfd_0200
      else if p = 17 then nfd_0220
      else if p = 240 then nfd_1E00
      else if p = 241 then nfd_1E20
      else if p = 242 then nfd_1E40
      else if p = 243 then nfd_1E60
      else if p = 244 then nfd_1E80
      else if p = 245 then nfd_1EA0
      else if p = 246 then nfd_1EC0
      else if p = 247 then nfd_1EE0
      else if p = 265 then nfd_2120
      else [])"
fun nfd_lookup :: "(nat \<times> nat list) list \<Rightarrow> nat \<Rightarrow> nat list" where
  "nfd_lookup [] c = [c]"
| "nfd_lookup ((k, d) # tbl) c = (if k = c then d else nfd_lookup tbl c)"

definition decompose :: "nat \<Rightarrow> nat list" where
  "decompose c = (if c < 192 then [c] else nfd_lookup (nfd_block (c div 32)) c)"

definition nfd :: "ustring \<Rightarrow> ustring" where
  "nfd s = concat (map decompose s)"

text \<open>
  \<open>s.toLowerCase()\<close> on a decomposed string: the ASCII capitals and capital D with stroke
  (U+0110 to U+0111). No other code unit of a decomposed string is mapped to an ASCII
  letter, a digit or d-with-stroke, so the others are left as they are.
\<close>

definition lower_unit :: "nat \<Rightarrow> nat" where
  "lower_unit c = (if 65 \<le> c \<and> c \<le> 90 then c + 32 else if c = 272 then 273 else c)"

definition toLowerCase :: "ustring \<Rightarrow> ustring" where
  "toLowerCase s = map lower_unit s"

section \<open>Text normalizer\<close>

text \<open>The class \<open>[\u0300-\u036f]\<close> of the source's first pattern.\<close>

definition is_combining :: "nat \<Rightarrow> bool" where
  "is_combining c = (768 \<le> c \<and> c \<le> 879)"

text \<open>The class \<open>[a-z0-9]\<close>.\<close>

definition is_alnum :: "nat \<Rightarrow> bool" where
  "is_alnum c = ((97 \<le> c \<and> c \<le> 122) \<or> (48 \<le> c \<and> c \<le> 57))"

text \<open>
  \<open>normalizeString\<close>: the empty string for anything that is not a non-empty string;
  otherwise decompose, delete the combining marks, lower the case, turn d-with-stroke
  (U+0111) into d, delete everything outside \<open>[a-z0-9]\<close>.
\<close>

definition normalizeString :: "cell \<Rightarrow> ustring" where
  "normalizeString str =
     (case str of
        JStr s \<Rightarrow>
          (if s = [] then []
           else
             let normalized = filter (\<lambda>c. \<not> is_combining c) (nfd s);
                 normalized = toLowerCase normalized;
                 normalized = map (\<lambda>c. if c = 273 then 100 else c) normalized
             in filter is_alnum normalized)
      | _ \<Rightarrow> [])"

section \<open>Record classifier\<close>

datatype projectType = DATN | BCCD

text \<open>The four counters of \<open>DashboardStats\<close> that name a conclusion.\<close>

datatype ConclusionCategory = withinLimit | l1Edit | l2Process | l2Exceeded

definition getConclusionCategory :: "jsnum \<Rightarrow> projectType \<Rightarrow> bool \<Rightarrow> ConclusionCategory" where
  "getConclusionCategory tv projectType isFirstCheck =
     (if projectType = DATN then
        (if num_lt tv (Fin 25) then withinLimit
         else if num_ge tv (Fin 25) \<and> num_le tv (Fin 35)
           then (if isFirstCheck then l1Edit else l2Process)
         else (if isFirstCheck then l1Edit else l2Exceeded))
      else
        (if num_lt tv (Fin 30) then withinLimit
         else if num_ge tv (Fin 30) \<and> num_le tv (Fin 40)
           then (if isFirstCheck then l1Edit else l2Process)
         else (if isFirstCheck then l1Edit else l2Exceeded)))"

text \<open>\<open>row.tv || 0\<close>, the argument both callers pass: an absent, NaN or zero \<open>tv\<close> is 0.\<close>

definition tv_or_0 :: "jsnum option \<Rightarrow> jsnum" where
  "tv_or_0 tv = (case tv of None \<Rightarrow> Fin 0 | Some n \<Rightarrow> if truthy (JNum n) then n else Fin 0)"

subsection \<open>Conclusion presentation\<close>

text \<open>The ballot boxes U+2610 (empty) and U+2611 (checked).\<close>

definition UNCHECKED_BOX :: ustring where
  "UNCHECKED_BOX = [9744]"

definition CHECKED_BOX :: ustring where
  "CHECKED_BOX = [9745]"

text \<open>The four fixed sentences \<open>conclusionTexts\<close>, as code units.\<close>

definition ketluan1_text :: ustring where
  "ketluan1_text =
     [272, 7843, 109, 32, 98, 7843, 111, 32, 116, 7881, 32, 108, 7879, 32, 99, 104, 111, 32,
      112, 104, 233, 112, 44, 32, 273, 7873, 32, 110, 103, 104, 7883, 32, 72, 7897, 105, 32,
      273, 7891, 110, 103, 32, 273, 225, 110, 104, 32, 103, 105, 225, 32, 272, 65, 84, 78,
      32, 47, 32, 67, 225, 110, 32, 98, 7897, 32, 99, 104, 7845, 109, 32, 116, 104, 105, 32,
      66, 67, 67, 272, 32, 273, 225, 110, 104, 32, 103, 105, 225, 32, 118, 224, 32, 107,
      7871, 116, 32, 108, 117, 7853, 110, 46]"

definition ketluan2_text :: ustring where
  "ketluan2_text =
     [84, 7881, 32, 108, 7879, 32, 116, 114, 249, 110, 103, 32, 108, 7863, 112, 32, 116,
      114, 111, 110, 103, 32, 107, 104, 111, 7843, 110, 103, 32, 99, 7847, 110, 32, 120,
      7917, 32, 108, 253, 32, 40, 272, 65, 84, 78, 58, 32, 50, 53, 37, 45, 51, 53, 37, 59,
      32, 66, 67, 67, 272, 58, 32, 51, 48, 37, 45, 52, 48, 37, 41, 44, 32, 273, 7873, 32,
      110, 103, 104, 7883, 32, 72, 7897, 105, 32, 273, 7891, 110, 103, 32, 273, 225, 110,
      104, 32, 103, 105, 225, 32, 272, 65, 84, 78, 32, 47, 32, 67, 225, 110, 32, 98, 7897,
      32, 99, 104, 7845, 109, 32, 116, 104, 105, 32, 66, 67, 67, 272, 32, 116, 114, 7915,
      32, 273, 105, 7875, 109, 32, 116, 104, 101, 111, 32, 81, 117, 121, 32, 273, 7883, 110,
      104, 46]"

definition ketluan3_text :: ustring where
  "ketluan3_text =
     [86, 432, 7907, 116, 32, 116, 7881, 32, 108, 7879, 44, 32, 273, 7873, 32, 110, 103,
      104, 7883, 32, 104, 7885, 99, 32, 118, 105, 234, 110, 32, 99, 104, 7881, 110, 104, 32,
      115, 7917, 97, 32, 116, 114, 111, 110, 103, 32, 116, 104, 7901, 105, 32, 103, 105, 97,
      110, 32, 48, 51, 32, 110, 103, 224, 121, 32, 40, 272, 65, 84, 78, 41, 32, 47, 32, 48,
      50, 32, 110, 103, 224, 121, 32, 40, 66, 67, 67, 272, 41, 32, 118, 224, 32, 110, 7897,
      112, 32, 108, 7841, 105, 32, 273, 7875, 32, 107, 105, 7875, 109, 32, 116, 114, 97, 32,
      108, 7847, 110, 32, 116, 105, 7871, 112, 32, 116, 104, 101, 111, 46]"

definition ketluan4_text :: ustring where
  "ketluan4_text =
     [86, 432, 7907, 116, 32, 116, 7881, 32, 108, 7879, 32, 116, 7889, 105, 32, 273, 97, 32,
      40, 272, 65, 84, 78, 32, 62, 32, 51, 53, 37, 59, 32, 66, 67, 67, 272, 32, 62, 32, 52,
      48, 37, 41, 58, 32, 107, 104, 244, 110, 103, 32, 273, 432, 7907, 99, 32, 98, 7843,
      111, 32, 118, 7879, 47, 107, 104, 244, 110, 103, 32, 273, 432, 7907, 99, 32, 99, 104,
      7845, 109, 44, 32, 273, 105, 7875, 109, 32, 48, 46]"
record conclusions =
  kl1_box :: ustring
  kl2_box :: ustring
  kl3_box :: ustring
  kl4_box :: ustring
  ketluan1 :: ustring
  ketluan2 :: ustring
  ketluan3 :: ustring
  ketluan4 :: ustring

definition conclusions_init :: conclusions where
  "conclusions_init =
     \<lparr>kl1_box = UNCHECKED_BOX, kl2_box = UNCHECKED_BOX, kl3_box = UNCHECKED_BOX,
      kl4_box = UNCHECKED_BOX, ketluan1 = ketluan1_text, ketluan2 = ketluan2_text,
      ketluan3 = ketluan3_text, ketluan4 = ketluan4_text\<rparr>"

definition getConclusionData :: "jsnum \<Rightarrow> projectType \<Rightarrow> bool \<Rightarrow> conclusions" where
  "getConclusionData tv projectType isFirstCheck =
     (let conclusions = conclusions_init in
      if projectType = DATN then
        (if num_lt tv (Fin 25) then conclusions\<lparr>kl1_box := CHECKED_BOX\<rparr>
         else if num_ge tv (Fin 25) \<and> num_le tv (Fin 35) then
           (if isFirstCheck then conclusions\<lparr>kl3_box := CHECKED_BOX\<rparr>
            else conclusions\<lparr>kl2_box := CHECKED_BOX\<rparr>)
         else if num_gt tv (Fin 35) then
           (if isFirstCheck then conclusions\<lparr>kl3_box := CHECKED_BOX\<rparr>
            else conclusions\<lparr>kl4_box := CHECKED_BOX\<rparr>)
         else conclusions)
      else
        (if num_lt tv (Fin 30) then conclusions\<lparr>kl1_box := CHECKED_BOX\<rparr>
         else if num_ge tv (Fin 30) \<and> num_le tv (Fin 40) then
           (if isFirstCheck then conclusions\<lparr>kl3_box := CHECKED_BOX\<rparr>
            else conclusions\<lparr>kl2_box := CHECKED_BOX\<rparr>)
         else if num_gt tv (Fin 40) then
           (if isFirstCheck then conclusions\<lparr>kl3_box := CHECKED_BOX\<rparr>
            else conclusions\<lparr>kl4_box := CHECKED_BOX\<rparr>)
         else conclusions))"

subsection \<open>Effective project type\<close>

text \<open>
  The type as \<open>handleGenerateReports\<close> works it out for the statistics, from the name of
  the template file and the type selected in the interface.
\<close>

definition statsEffectiveProjectType :: "ustring \<Rightarrow> projectType \<Rightarrow> projectType" where
  "statsEffectiveProjectType fileName projectType =
     (let normalizedFileName = normalizeString (JStr fileName) in
      if str_includes normalizedFileName (asc ''datn'')
         \<or> str_includes normalizedFileName (asc ''kltn'') then DATN
      else if str_includes normalizedFileName (asc ''bccd'') then BCCD
      else projectType)"

text \<open>The same decision as \<open>generateWordReports\<close> takes it (steps 1 and 2).\<close>

definition reportEffectiveProjectType :: "ustring \<Rightarrow> projectType \<Rightarrow> projectType" where
  "reportEffectiveProjectType fileName projectTypeFromUI =
     (let normalizedFileName = normalizeString (JStr fileName) in
      if str_includes normalizedFileName (asc ''datn'')
         \<or> str_includes normalizedFileName (asc ''kltn'') then DATN
      else if str_includes normalizedFileName (asc ''bccd'') then BCCD
      else projectTypeFromUI)"

text \<open>The strings of the type \<open>'DATN' | 'BCCD'\<close> (each with capital D with stroke, U+0110).\<close>

fun projectType_str :: "projectType \<Rightarrow> ustring" where
  "projectType_str DATN = [272, 65, 84, 78]"
| "projectType_str BCCD = [66, 67, 67, 272]"

text \<open>Step 3 of \<open>generateWordReports\<close>: the base name of the generated documents.\<close>

definition baseName :: "ustring \<Rightarrow> projectType \<Rightarrow> ustring" where
  "baseName fileName projectTypeFromUI =
     (let normalizedFileName = normalizeString (JStr fileName) in
      if str_includes normalizedFileName (asc ''kltn'') then asc ''KQ_KLTN''
      else if str_includes normalizedFileName (asc ''datn'') then asc ''KQ_'' @ [272, 65, 84, 78]
      else if str_includes normalizedFileName (asc ''bccd'') then asc ''KQ_'' @ [66, 67, 67, 272]
      else asc ''KQ_'' @ projectType_str (reportEffectiveProjectType fileName projectTypeFromUI))"

section \<open>Numbers and strings\<close>

text \<open>The class \<open>\d\<close>, and the value of a run of decimal digits.\<close>

definition is_digit :: "nat \<Rightarrow> bool" where
  "is_digit c = (48 \<le> c \<and> c \<le> 57)"

definition digits_val :: "ustring \<Rightarrow> nat" where
  "digits_val ds = foldl (\<lambda>a c. 10 * a + (c - 48)) 0 ds"

text \<open>The decimal digits of a natural number, most significant first.\<close>

fun digits10 :: "nat \<Rightarrow> ustring" where
  "digits10 n = (if n < 10 then [48 + n] else digits10 (n div 10) @ [48 + n mod 10])"

declare digits10.simps [simp del]

subsection \<open>The Number value of a real number\<close>

text \<open>
  A finite JavaScript number is a double: 0, or \<open>m * 2 ^ e\<close> with \<open>\<bar>m\<bar> < 2 ^ 53\<close> and
  \<open>- 1074 \<le> e \<le> 971\<close>. It is kept as the rational it denotes (the two zeros are one value).
  \<open>number_value q\<close> is the double nearest to \<open>q\<close>, ties to the even significand, and an
  infinity from \<open>2 ^ 1024\<close> on: \<open>binary_exponent q\<close> is the \<open>e\<close> with \<open>2 ^ e \<le> q < 2 ^ (e + 1)\<close>,
  the spacing of the doubles around \<open>q\<close> is \<open>2 ^ (e - 52)\<close>, and \<open>2 ^ - 1074\<close> below
  \<open>2 ^ - 1022\<close>.
\<close>

definition binary_exponent :: "rat \<Rightarrow> int" where
  "binary_exponent q = (if 1 \<le> q then bitlen \<lfloor>q\<rfloor> - 1 else - bitlen (\<lceil>1 / q\<rceil> - 1))"

definition round_half_even :: "rat \<Rightarrow> int" where
  "round_half_even r =
     (let f = \<lfloor>r\<rfloor>; d = r - of_int f
      in if d < 1 / 2 then f else if 1 / 2 < d then f + 1 else if even f then f else f + 1)"

definition round_positive :: "rat \<Rightarrow> jsnum" where
  "round_positive q =
     (let u = 2 powi (max (binary_exponent q) (- 1022) - 52);
          v = of_int (round_half_even (q / u)) * u
      in if 2 ^ 1024 \<le> v then PosInf else Fin v)"

fun num_neg :: "jsnum \<Rightarrow> jsnum" where
  "num_neg NaN = NaN"
| "num_neg PosInf = NegInf"
| "num_neg NegInf = PosInf"
| "num_neg (Fin q) = Fin (- q)"

definition number_value :: "rat \<Rightarrow> jsnum" where
  "number_value q =
     (if q = 0 then Fin 0
      else if q < 0 then num_neg (round_positive (- q))
      else round_positive q)"

subsection \<open>\<open>parseFloat\<close>\<close>

text \<open>
  The exponent part \<open>[eE][+-]?\d+\<close> at the head of a string, 0 when there is none.
\<close>

definition exponent_part :: "ustring \<Rightarrow> int" where
  "exponent_part s =
     (case s of
        [] \<Rightarrow> 0
      | c # t \<Rightarrow>
          if c = 101 \<or> c = 69 then
            (case t of
               [] \<Rightarrow> 0
             | d # u \<Rightarrow>
                 if d = 43 then (if takeWhile is_digit u = [] then 0 else int (digits_val (takeWhile is_digit u)))
                 else if d = 45 then (if takeWhile is_digit u = [] then 0 else - int (digits_val (takeWhile is_digit u)))
                 else if takeWhile is_digit t = [] then 0
                 else int (digits_val (takeWhile is_digit t)))
          else 0)"

definition scale10 :: "rat \<Rightarrow> int \<Rightarrow> rat" where
  "scale10 m e = (if 0 \<le> e then m * 10 ^ nat e else m / 10 ^ nat (- e))"

text \<open>
  The longest prefix that is an unsigned decimal literal: \<open>Infinity\<close>, or digits with an
  optional fraction and exponent, or a fraction that starts with the point; its value is
  the double nearest to the decimal number written. NaN when no prefix is one.
\<close>

definition unsigned_literal :: "ustring \<Rightarrow> jsnum" where
  "unsigned_literal s =
     (if prefix (asc ''Infinity'') s then PosInf
      else
        let ip = takeWhile is_digit s;
            r1 = dropWhile is_digit s;
            fp = (case r1 of [] \<Rightarrow> [] | c # t \<Rightarrow> if c = 46 then takeWhile is_digit t else []);
            r2 = (case r1 of [] \<Rightarrow> [] | c # t \<Rightarrow> if c = 46 then dropWhile is_digit t else r1)
        in if ip = [] \<and> fp = [] then NaN
           else number_value
                  (scale10 (of_nat (digits_val (ip @ fp)) / 10 ^ length fp) (exponent_part r2)))"

text \<open>
  \<open>parseFloat(s)\<close>: leading white space is skipped, then an optional sign, then the
  longest literal; what follows the literal is ignored.
\<close>

definition parseFloat :: "ustring \<Rightarrow> jsnum" where
  "parseFloat s =
     (case dropWhile is_ws s of
        [] \<Rightarrow> NaN
      | c # t \<Rightarrow>
          if c = 45 then num_neg (unsigned_literal t)
          else if c = 43 then unsigned_literal t
          else unsigned_literal (c # t))"

text \<open>
  \<open>parseInt(s, 10)\<close>: leading white space, an optional sign, then the longest run of
  digits; the double nearest to the integer written, NaN when there is no digit.
\<close>

definition parseInt :: "ustring \<Rightarrow> jsnum" where
  "parseInt s =
     (let t = dropWhile is_ws s;
          neg = (t \<noteq> [] \<and> hd t = 45);
          u = (if t \<noteq> [] \<and> (hd t = 45 \<or> hd t = 43) then tl t else t);
          ds = takeWhile is_digit u
      in if ds = [] then NaN
         else number_value (if neg then - of_nat (digits_val ds) else of_nat (digits_val ds)))"

subsection \<open>\<open>String(v)\<close>\<close>

text \<open>
  The digits \<open>Number::toString\<close> prints for a positive double \<open>q\<close>: the shortest decimal
  \<open>s * 10 ^ e\<close> whose Number value is \<open>q\<close> and, among those of that length, the one
  nearest to \<open>q\<close> (the even \<open>s\<close> of two equally near). \<open>decimal_exponent q\<close> is the \<open>n\<close>
  with \<open>10 ^ (n - 1) \<le> q < 10 ^ n\<close>. With \<open>k\<close> digits the two candidates are the multiples
  of \<open>10 ^ (n - k)\<close> next to \<open>q\<close>; 17 digits tell any two doubles apart.
\<close>

definition decimal_exponent :: "rat \<Rightarrow> int" where
  "decimal_exponent q =
     (if 1 \<le> q then int (floorlog 10 (nat \<lfloor>q\<rfloor>))
      else 1 - int (floorlog 10 (nat (\<lceil>1 / q\<rceil> - 1))))"

definition digits_at :: "rat \<Rightarrow> int \<Rightarrow> (nat \<times> int) option" where
  "digits_at q e =
     (let p = 10 powi e;
          lo = \<lfloor>q / p\<rfloor>;
          hi = lo + 1;
          ok_lo = (number_value (of_int lo * p) = Fin q);
          ok_hi = (number_value (of_int hi * p) = Fin q);
          dl = q - of_int lo * p;
          dh = of_int hi * p - q
      in if ok_lo \<and> ok_hi then Some (nat (if dl < dh \<or> dl = dh \<and> even lo then lo else hi), e)
         else if ok_lo then Some (nat lo, e)
         else if ok_hi then Some (nat hi, e)
         else None)"

definition shortest_digits :: "rat \<Rightarrow> nat \<times> int" where
  "shortest_digits q =
     (let n = decimal_exponent q
      in case List.map_filter (\<lambda>k. digits_at q (n - int k)) [1..<18] of
           [] \<Rightarrow> (nat \<lfloor>q / 10 powi (n - 17)\<rfloor>, n - 17)
         | d # ds \<Rightarrow> d)"

text \<open>
  \<open>Number::toString\<close> on a positive finite number, from its digits \<open>s\<close> (\<open>k\<close> of them,
  no trailing zero) and the position \<open>n\<close> of the decimal point:
  the value is \<open>0.s * 10 ^ n\<close>.
\<close>

definition format_positive :: "ustring \<Rightarrow> int \<Rightarrow> ustring" where
  "format_positive s n =
     (let k = int (length s) in
      if k \<le> n \<and> n \<le> 21 then s @ replicate (nat (n - k)) 48
      else if 0 < n \<and> n \<le> 21 then take (nat n) s @ [46] @ drop (nat n) s
      else if - 6 < n \<and> n \<le> 0 then [48, 46] @ replicate (nat (- n)) 48 @ s
      else
        (let e = n - 1;
             es = (if e < 0 then [45] else [43]) @ digits10 (nat \<bar>e\<bar>)
         in if k = 1 then s @ [101] @ es
            else [hd s] @ [46] @ tl s @ [101] @ es))"

definition positive_toString :: "rat \<Rightarrow> ustring" where
  "positive_toString q =
     (let (N, e) = shortest_digits q;
          D = digits10 N;
          s = rev (dropWhile (\<lambda>c. c = 48) (rev D))
      in if N = 0 then [48] else format_positive s (int (length D) + e))"

fun numToString :: "jsnum \<Rightarrow> ustring" where
  "numToString NaN = asc ''NaN''"
| "numToString PosInf = asc ''Infinity''"
| "numToString NegInf = asc ''-Infinity''"
| "numToString (Fin q) =
     (if q = 0 then [48]
      else if q < 0 then [45] @ positive_toString (- q)
      else positive_toString q)"

fun to_String :: "cell \<Rightarrow> ustring" where
  "to_String JNull = asc ''null''"
| "to_String JUndefined = asc ''undefined''"
| "to_String (JStr s) = s"
| "to_String (JNum n) = numToString n"
| "to_String (JBool b) = (if b then asc ''true'' else asc ''false'')"

text \<open>\<open>s.toUpperCase()\<close> on the keys the source applies it to (\<open>c\<close> and digits).\<close>

definition upper_unit :: "nat \<Rightarrow> nat" where
  "upper_unit c = (if 97 \<le> c \<and> c \<le> 122 then c - 32 else c)"

definition toUpperCase :: "ustring \<Rightarrow> ustring" where
  "toUpperCase s = map upper_unit s"

text \<open>\<open>xs.join(', ')\<close>\<close>

fun join_comma :: "ustring list \<Rightarrow> ustring" where
  "join_comma [] = []"
| "join_comma [x] = x"
| "join_comma (x # y # ys) = x @ [44, 32] @ join_comma (y # ys)"

text \<open>\<open>xs.indexOf(x)\<close> and \<open>xs.findIndex(p)\<close>, with \<open>None\<close> for \<open>-1\<close>.\<close>

fun findIndex :: "('a \<Rightarrow> bool) \<Rightarrow> 'a list \<Rightarrow> nat option" where
  "findIndex p [] = None"
| "findIndex p (x # xs) = (if p x then Some 0 else map_option Suc (findIndex p xs))"

definition indexOf :: "'a list \<Rightarrow> 'a \<Rightarrow> nat option" where
  "indexOf xs x = findIndex (\<lambda>y. y = x) xs"

section \<open>Header locator and column resolver\<close>

text \<open>The errors the pipeline throws: one constructor for each \<open>throw\<close>, and \<open>TypeError\<close>
  for a property read on \<open>undefined\<close> and for a call of something that is no function.\<close>

datatype error =
    TypeError
  | MainFileEmpty
  | SuppFileEmpty
  | MainColumnsMissing
  | RatioColumnsMissing
  | DataFileTooShort
  | DataColumnsMissing

text \<open>The keywords of the source that are not ASCII, as code units.\<close>

definition kw_ten_de_tai :: ustring where
  \<comment> \<open>"Ten de tai" with its accents: the header of the topic title\<close>
  "kw_ten_de_tai = [84, 234, 110, 32, 273, 7873, 32, 116, 224, 105]"

definition kw_ho_ten_hv :: ustring where
  \<comment> \<open>"Ho ten HV" with its accents: the header of the student name\<close>
  "kw_ho_ten_hv = [72, 7885, 32, 116, 234, 110, 32, 72, 86]"

definition kw_nguoi_huong_dan :: ustring where
  \<comment> \<open>"Nguoi huong dan" with its accents: the header of the advisor\<close>
  "kw_nguoi_huong_dan = [78, 103, 432, 7901, 105, 32, 104, 432, 7899, 110, 103, 32, 100, 7851, 110]"

definition kw_so_hoc_vien :: ustring where
  \<comment> \<open>"So hoc vien" with its accents: the header of the number of students\<close>
  "kw_so_hoc_vien = [83, 7889, 32, 104, 7885, 99, 32, 118, 105, 234, 110]"

definition kw_ti_le :: ustring where
  \<comment> \<open>"Ti le" with its accents: the header of a ratio column\<close>
  "kw_ti_le = [84, 7881, 32, 108, 7879]"

text \<open>
  The test of one cell in \<open>detectHeaderRow\<close>: its normalized form contains the normalized
  form of some keyword.
\<close>

definition cell_matches :: "ustring list \<Rightarrow> cell \<Rightarrow> bool" where
  "cell_matches keywords c =
     (let normalizedCell = normalizeString c in
      list_ex (\<lambda>kw. str_includes normalizedCell (normalizeString (JStr kw))) keywords)"

text \<open>The inner loop: the number of cells of the row that match.\<close>

definition matchCount :: "ustring list \<Rightarrow> cell list \<Rightarrow> nat" where
  "matchCount keywords row = length (filter (cell_matches keywords) row)"

text \<open>The outer loop of \<open>detectHeaderRow\<close>, from row \<open>i\<close> on.\<close>

function detectHeaderRow_from :: "nat \<Rightarrow> cell list list \<Rightarrow> ustring list \<Rightarrow> nat" where
  "detectHeaderRow_from i data keywords =
     (if i < min 10 (length data) then
        (if 2 \<le> matchCount keywords (data ! i) then i
         else detectHeaderRow_from (i + 1) data keywords)
      else 0)"
  by pat_completeness auto
termination
  by (relation "measure (\<lambda>(i, data, keywords). min 10 (length data) - i)") auto

declare detectHeaderRow_from.simps [simp del]

definition detectHeaderRow :: "cell list list \<Rightarrow> ustring list \<Rightarrow> nat" where
  "detectHeaderRow data keywords = detectHeaderRow_from 0 data keywords"

text \<open>
  \<open>findColumn\<close>: the keywords in their order; for each, the first header whose normalized
  form contains the normalized keyword; the header as it was written.
\<close>

fun findColumn :: "ustring list \<Rightarrow> ustring list \<Rightarrow> ustring option" where
  "findColumn headers [] = None"
| "findColumn headers (keyword # keywords) =
     (let normKey = normalizeString (JStr keyword) in
      case find (\<lambda>h. str_includes (normalizeString (JStr h)) normKey) headers of
        Some found \<Rightarrow> Some found
      | None \<Rightarrow> findColumn headers keywords)"

text \<open>\<open>!col\<close> on a result of \<open>findColumn\<close>: \<open>null\<close> and the empty string are falsy.\<close>

definition col_missing :: "ustring option \<Rightarrow> bool" where
  "col_missing col = (case col of None \<Rightarrow> True | Some h \<Rightarrow> h = [])"

text \<open>The header row as both \<open>processMainData\<close> and \<open>mergeMainAndRatios\<close> read it.\<close>

definition header_texts :: "cell list \<Rightarrow> ustring list" where
  "header_texts row = map (\<lambda>h. trim (to_String (js_or h (JStr [])))) row"

section \<open>Main-roster aggregator\<close>

text \<open>
  A plain object with string keys: its own properties in the order of their creation.
  An assignment to a key that exists replaces the value in place.
\<close>

type_synonym 'a obj = "(ustring \<times> 'a) list"

definition obj_get :: "cell obj \<Rightarrow> ustring \<Rightarrow> cell" where
  "obj_get obj k = (case map_of obj k of Some v \<Rightarrow> v | None \<Rightarrow> JUndefined)"

text \<open>\<open>headers.forEach((h, i) => obj[h] = row[i])\<close>\<close>

definition row_object :: "ustring list \<Rightarrow> cell list \<Rightarrow> cell obj" where
  "row_object headers row =
     foldl (\<lambda>obj (h, i). AList.update h (cell_at row i) obj) [] (zip headers [0..<length headers])"

text \<open>
  The \<open>map\<close> that turns the rows into objects and fills the topic forward; \<open>lastTopic\<close>
  is the variable of that name, \<open>''\<close> at the start.
\<close>

fun forward_fill :: "ustring list \<Rightarrow> ustring \<Rightarrow> cell \<Rightarrow> cell list list \<Rightarrow> cell obj list" where
  "forward_fill headers topicCol lastTopic [] = []"
| "forward_fill headers topicCol lastTopic (row # rows) =
     (let obj = row_object headers row in
      if truthy (obj_get obj topicCol)
      then obj # forward_fill headers topicCol (obj_get obj topicCol) rows
      else AList.update topicCol lastTopic obj # forward_fill headers topicCol lastTopic rows)"

text \<open>
  The names that every object inherits from \<open>Object.prototype\<close>. Read on an object that
  has no own property of that name, each gives a truthy value that has no \<open>push\<close>.
\<close>

definition prototype_keys :: "ustring list" where
  "prototype_keys =
     [asc ''constructor'', asc ''__defineGetter__'', asc ''__defineSetter__'',
      asc ''hasOwnProperty'', asc ''__lookupGetter__'', asc ''__lookupSetter__'',
      asc ''isPrototypeOf'', asc ''propertyIsEnumerable'', asc ''toString'', asc ''valueOf'',
      asc ''__proto__'', asc ''toLocaleString'']"

text \<open>
  One step of the \<open>reduce\<close> that groups the rows: the topic is the property key (so a
  number or a boolean is turned into its string); a missing group is created empty; the
  row is pushed.
\<close>

definition group_step :: "ustring \<Rightarrow> cell obj list obj \<Rightarrow> cell obj \<Rightarrow> error + cell obj list obj" where
  "group_step topicCol acc row =
     (let topic = to_String (obj_get row topicCol) in
      case map_of acc topic of
        Some g \<Rightarrow> Inr (AList.update topic (g @ [row]) acc)
      | None \<Rightarrow>
          if topic \<in> set prototype_keys then Inl TypeError
          else Inr (acc @ [(topic, [row])]))"

fun group_rows :: "ustring \<Rightarrow> cell obj list obj \<Rightarrow> cell obj list \<Rightarrow> error + cell obj list obj" where
  "group_rows topicCol acc [] = Inr acc"
| "group_rows topicCol acc (row # rows) =
     (case group_step topicCol acc row of
        Inl e \<Rightarrow> Inl e
      | Inr acc' \<Rightarrow> group_rows topicCol acc' rows)"

text \<open>
  \<open>Object.values\<close>: the properties whose key is an array index (a canonical decimal
  numeral below \<open>2^32 - 1\<close>) come first, in ascending numeric order; the others follow
  in the order of their creation.
\<close>

definition is_array_index :: "ustring \<Rightarrow> bool" where
  "is_array_index k =
     (k \<noteq> [] \<and> list_all is_digit k \<and> digits10 (digits_val k) = k \<and> digits_val k < 4294967295)"

definition object_values :: "'a obj \<Rightarrow> 'a list" where
  "object_values obj =
     map snd (sort_key (\<lambda>p. digits_val (fst p)) (filter (\<lambda>p. is_array_index (fst p)) obj)
              @ filter (\<lambda>p. \<not> is_array_index (fst p)) obj)"

text \<open>The object \<open>processMainData\<close> returns for a group; its keys are transliterated.\<close>

record AggregatedTopic =
  ten_de_tai :: cell
  ho_ten_hv :: ustring
  so_hoc_vien :: nat
  nguoi_huong_dan :: cell

definition student_names :: "ustring \<Rightarrow> cell obj list \<Rightarrow> ustring" where
  "student_names nameCol grp =
     join_comma (filter (\<lambda>s. s \<noteq> [])
       (map (\<lambda>s. trim (to_String (js_or (obj_get s nameCol) (JStr [])))) grp))"

definition aggregate_group ::
    "ustring \<Rightarrow> ustring \<Rightarrow> ustring option \<Rightarrow> cell obj list \<Rightarrow> error + AggregatedTopic" where
  "aggregate_group topicCol nameCol guideCol grp =
     (case grp of
        [] \<Rightarrow> Inl TypeError
      | first # _ \<Rightarrow>
          Inr \<lparr>ten_de_tai = obj_get first topicCol,
               ho_ten_hv = student_names nameCol grp,
               so_hoc_vien = length grp,
               nguoi_huong_dan =
                 (if col_missing guideCol then JStr []
                  else js_or (obj_get first (the guideCol)) (JStr []))\<rparr>)"

text \<open>A \<open>map\<close> whose function may throw: the first error ends it.\<close>

fun map_result :: "('a \<Rightarrow> error + 'b) \<Rightarrow> 'a list \<Rightarrow> error + 'b list" where
  "map_result f [] = Inr []"
| "map_result f (x # xs) =
     (case f x of
        Inl e \<Rightarrow> Inl e
      | Inr y \<Rightarrow> (case map_result f xs of Inl e \<Rightarrow> Inl e | Inr ys \<Rightarrow> Inr (y # ys)))"

definition processMainData :: "cell list list \<Rightarrow> error + AggregatedTopic list" where
  "processMainData rawData =
     (let headerRowIndex = detectHeaderRow rawData [kw_ten_de_tai, kw_ho_ten_hv, kw_nguoi_huong_dan] in
      if length rawData \<le> headerRowIndex then Inl TypeError
      else
        let headers = header_texts (rawData ! headerRowIndex);
            dataRows = drop (headerRowIndex + 1) rawData;
            topicCol = findColumn headers [kw_ten_de_tai, asc ''De tai''];
            nameCol = findColumn headers [kw_ho_ten_hv, asc ''Ten hoc vien''];
            guideCol = findColumn headers [kw_nguoi_huong_dan]
        in if col_missing topicCol \<or> col_missing nameCol then Inl MainColumnsMissing
           else
             let filledData = filter (\<lambda>obj. truthy (obj_get obj (the nameCol)))
                                (forward_fill headers (the topicCol) (JStr []) dataRows)
             in case group_rows (the topicCol) [] filledData of
                  Inl e \<Rightarrow> Inl e
                | Inr grouped \<Rightarrow>
                    map_result (aggregate_group (the topicCol) (the nameCol) guideCol)
                      (object_values grouped))"

section \<open>Ratio merger\<close>

text \<open>
  A record of the merged data: the fixed fields, the optional \<open>tv\<close>, and the chapter
  fields (\<open>c1\<close>, \<open>c2\<close>, ...) as their own object, in the order of their creation.
\<close>

record MergedData =
  hotenhv :: cell
  tendetai :: cell
  sohocvien :: jsnum
  nguoihuongdan :: cell
  tv :: "jsnum option"
  chapters :: "jsnum obj"

text \<open>The pattern \<open>/^(tile|ti le)\d+$/\<close> and the replacement of \<open>/^(tile|ti le)/\<close> by \<open>''\<close>.\<close>

definition matches_ratio :: "ustring \<Rightarrow> bool" where
  "matches_ratio s =
     ((prefix (asc ''tile'') s \<and> drop 4 s \<noteq> [] \<and> list_all is_digit (drop 4 s))
      \<or> (prefix (asc ''ti le'') s \<and> drop 5 s \<noteq> [] \<and> list_all is_digit (drop 5 s)))"

definition strip_ratio :: "ustring \<Rightarrow> ustring" where
  "strip_ratio s =
     (if prefix (asc ''tile'') s then drop 4 s
      else if prefix (asc ''ti le'') s then drop 5 s
      else s)"

text \<open>An element of \<open>projectRatioColumns\<close>.\<close>

record ratio_column =
  rc_header :: ustring
  rc_index :: nat
  rc_norm :: ustring

text \<open>
  The number the comparator of the sort reads off a column. After the filter it is the
  double nearest to the value of the digits, or \<open>Infinity\<close>. The comparator returns
  \<open>numA - numB\<close>: the difference of two infinities is NaN, which the sort takes for 0, and
  an infinity is above every double; it stands here as \<open>2 ^ 1024\<close>. The sort is stable.
\<close>

definition ratio_number :: "ratio_column \<Rightarrow> rat" where
  "ratio_number c =
     (case parseInt (strip_ratio (rc_norm c)) of Fin q \<Rightarrow> q | PosInf \<Rightarrow> 2 ^ 1024 | _ \<Rightarrow> 0)"

definition projectRatioColumns :: "ustring list \<Rightarrow> ratio_column list" where
  "projectRatioColumns headers =
     sort_key ratio_number
       (filter (\<lambda>c. matches_ratio (rc_norm c))
          (map (\<lambda>(header, index).
                  \<lparr>rc_header = header, rc_index = index, rc_norm = normalizeString (JStr header)\<rparr>)
             (zip headers [0..<length headers])))"

text \<open>\<open>tvColIndex\<close>, with \<open>None\<close> for \<open>-1\<close>.\<close>

definition tvColIndex :: "ustring list \<Rightarrow> nat option" where
  "tvColIndex headers =
     (let tvColHeader = findColumn headers [asc ''TV''] in
      if col_missing tvColHeader then None else indexOf headers (the tvColHeader))"

text \<open>
  The number read off a cell, in both places of \<open>mergeMainAndRatios\<close>: a string is parsed
  after its first comma is turned into a point, a number is taken as it is, anything else
  gives \<open>undefined\<close>.
\<close>

definition cell_number :: "cell \<Rightarrow> jsnum option" where
  "cell_number v =
     (case v of
        JStr s \<Rightarrow> Some (parseFloat (replace_first 44 46 s))
      | JNum n \<Rightarrow> Some n
      | _ \<Rightarrow> None)"

text \<open>Step 5: the value of \<open>tv\<close> for the project at \<open>projectIndex\<close>.\<close>

definition tv_value :: "cell list list \<Rightarrow> nat option \<Rightarrow> nat \<Rightarrow> jsnum option" where
  "tv_value dataRows tvCol projectIndex =
     (if projectIndex < length dataRows \<and> tvCol \<noteq> None then
        (let tvVal = cell_at (dataRows ! projectIndex) (the tvCol) in
         if tvVal \<noteq> JNull \<and> tvVal \<noteq> JUndefined then
           (case cell_number tvVal of
              Some numVal \<Rightarrow> if \<not> isNaN numVal then Some numVal else None
            | None \<Rightarrow> None)
         else None)
      else None)"

text \<open>Step 6, the body of the \<open>forEach\<close> down a ratio column.\<close>

definition chapter_step :: "nat \<Rightarrow> jsnum obj \<Rightarrow> cell list \<times> nat \<Rightarrow> jsnum obj" where
  "chapter_step ratioColIndex newRow rc =
     (let cellValue = cell_at (fst rc) ratioColIndex in
      if cellValue \<noteq> JNull \<and> cellValue \<noteq> JUndefined \<and> trim (to_String cellValue) \<noteq> [] then
        (case cell_number cellValue of
           Some numValue \<Rightarrow>
             if \<not> isNaN numValue
             then AList.update (asc ''c'' @ digits10 (snd rc + 1)) numValue newRow
             else newRow
         | None \<Rightarrow> newRow)
      else newRow)"

definition chapter_values :: "cell list list \<Rightarrow> ratio_column list \<Rightarrow> nat \<Rightarrow> jsnum obj" where
  "chapter_values dataRows ratioCols projectIndex =
     (if projectIndex < length ratioCols then
        foldl (chapter_step (rc_index (ratioCols ! projectIndex))) []
          (zip dataRows [0..<length dataRows])
      else [])"

definition mergeMainAndRatios :: "AggregatedTopic list \<Rightarrow> cell list list \<Rightarrow> error + MergedData list" where
  "mergeMainAndRatios dfMain dfSupp =
     (let headerRowIndex = detectHeaderRow dfSupp [asc ''TV'', kw_ti_le] in
      if length dfSupp \<le> headerRowIndex then Inl TypeError
      else
        let headers = header_texts (dfSupp ! headerRowIndex);
            dataRows = drop (headerRowIndex + 1) dfSupp;
            tvCol = tvColIndex headers;
            ratioCols = projectRatioColumns headers
        in if length ratioCols = 0 \<and> tvCol = None then Inl RatioColumnsMissing
           else
             Inr (map (\<lambda>(mainRow, projectIndex).
                         \<lparr>hotenhv = JStr (ho_ten_hv mainRow),
                          tendetai = ten_de_tai mainRow,
                          sohocvien = Fin (of_nat (so_hoc_vien mainRow)),
                          nguoihuongdan = nguoi_huong_dan mainRow,
                          tv = tv_value dataRows tvCol projectIndex,
                          chapters = chapter_values dataRows ratioCols projectIndex\<rparr>)
                    (zip dfMain [0..<length dfMain])))"

section \<open>Reading the sheets\<close>

text \<open>
  What \<open>readFileAsArray\<close> does to the rows the workbook library delivers: the rows
  in which every cell is \<open>null\<close> or blank are dropped.
\<close>

definition readFileAsArray :: "cell list list \<Rightarrow> cell list list" where
  "readFileAsArray json =
     filter (\<lambda>row. list_ex (\<lambda>cell. cell \<noteq> JNull \<and> trim (to_String cell) \<noteq> []) row) json"

subsection \<open>The direct-read path\<close>

text \<open>The pattern \<open>/^(c|chuong|tile)\d+$/\<close> and the replacement of
  \<open>/^(c|chuong|tile)/\<close> by \<open>''\<close>: the first alternative that matches is removed.\<close>

definition matches_chapter :: "ustring \<Rightarrow> bool" where
  "matches_chapter s =
     ((prefix (asc ''c'') s \<and> drop 1 s \<noteq> [] \<and> list_all is_digit (drop 1 s))
      \<or> (prefix (asc ''chuong'') s \<and> drop 6 s \<noteq> [] \<and> list_all is_digit (drop 6 s))
      \<or> (prefix (asc ''tile'') s \<and> drop 4 s \<noteq> [] \<and> list_all is_digit (drop 4 s)))"

definition strip_chapter :: "ustring \<Rightarrow> ustring" where
  "strip_chapter s =
     (if prefix (asc ''c'') s then drop 1 s
      else if prefix (asc ''chuong'') s then drop 6 s
      else if prefix (asc ''tile'') s then drop 4 s
      else s)"

text \<open>The local function \<open>findIndex\<close> of \<open>readDataFileForReporting\<close>.\<close>

fun findIndex_kw :: "ustring list \<Rightarrow> ustring list \<Rightarrow> nat option" where
  "findIndex_kw headers [] = None"
| "findIndex_kw headers (kw # keywords) =
     (let normalizedKw = normalizeString (JStr kw) in
      case findIndex (\<lambda>h. str_includes h normalizedKw) headers of
        Some index \<Rightarrow> Some index
      | None \<Rightarrow> findIndex_kw headers keywords)"

text \<open>The body of the \<open>forEach\<close> over the headers that fills the chapter fields.\<close>

definition read_chapter_step :: "cell list \<Rightarrow> jsnum obj \<Rightarrow> ustring \<times> nat \<Rightarrow> jsnum obj" where
  "read_chapter_step row rowData hi =
     (if matches_chapter (fst hi) then
        (if cell_at row (snd hi) \<noteq> JNull \<and> cell_at row (snd hi) \<noteq> JUndefined then
           (let cVal = replace_first 44 46 (to_String (cell_at row (snd hi)));
                chapterNum = strip_chapter (fst hi)
            in AList.update (asc ''c'' @ chapterNum) (parseFloat cVal) rowData)
         else rowData)
      else rowData)"

definition read_row ::
    "ustring list \<Rightarrow> nat \<Rightarrow> nat \<Rightarrow> nat option \<Rightarrow> nat option \<Rightarrow> nat option \<Rightarrow> cell list \<Rightarrow> MergedData" where
  "read_row headers tendetaiIndex hotenhvIndex sohocvienIndex nguoihuongdanIndex tvIndex row =
     \<lparr>hotenhv = JStr (to_String (js_or (cell_at row hotenhvIndex) (JStr []))),
      tendetai = JStr (to_String (js_or (cell_at row tendetaiIndex) (JStr []))),
      sohocvien =
        (case sohocvienIndex of
           Some i \<Rightarrow> parseInt (to_String (js_or (cell_at row i) (JStr (asc ''0''))))
         | None \<Rightarrow> Fin 1),
      nguoihuongdan =
        (case nguoihuongdanIndex of
           Some i \<Rightarrow> JStr (to_String (js_or (cell_at row i) (JStr [])))
         | None \<Rightarrow> JStr []),
      tv =
        (case tvIndex of
           Some i \<Rightarrow>
             if cell_at row i \<noteq> JNull \<and> cell_at row i \<noteq> JUndefined
             then Some (parseFloat (replace_first 44 46 (to_String (cell_at row i))))
             else None
         | None \<Rightarrow> None),
      chapters = foldl (read_chapter_step row) [] (zip headers [0..<length headers])\<rparr>"

definition readDataFileForReporting :: "cell list list \<Rightarrow> error + MergedData list" where
  "readDataFileForReporting json =
     (let data = readFileAsArray json in
      if length data < 2 then Inl DataFileTooShort
      else
        let headers = map normalizeString (hd data);
            dataRows = drop 1 data;
            tendetaiIndex = findIndex_kw headers [kw_ten_de_tai, asc ''tendetai''];
            hotenhvIndex = findIndex_kw headers [kw_ho_ten_hv, asc ''hotenhv''];
            sohocvienIndex = findIndex_kw headers [kw_so_hoc_vien, asc ''sohocvien''];
            nguoihuongdanIndex = findIndex_kw headers [kw_nguoi_huong_dan, asc ''nguoihuongdan''];
            tvIndex = findIndex_kw headers [asc ''TV'']
        in if tendetaiIndex = None \<or> hotenhvIndex = None then Inl DataColumnsMissing
           else
             let reportData =
                   map (read_row headers (the tendetaiIndex) (the hotenhvIndex) sohocvienIndex
                          nguoihuongdanIndex tvIndex) dataRows
             in Inr (filter (\<lambda>d. truthy (tendetai d) \<and> truthy (hotenhv d)) reportData))"

section \<open>Notions used in the statements\<close>

text \<open>
  Which of the four boxes of a presentation are checked, in the order \<open>kl1_box\<close>,
  \<open>kl2_box\<close>, \<open>kl3_box\<close>, \<open>kl4_box\<close>; and the box each category stands for.
\<close>

definition checked_boxes :: "conclusions \<Rightarrow> bool list" where
  "checked_boxes d =
     [kl1_box d = CHECKED_BOX, kl2_box d = CHECKED_BOX, kl3_box d = CHECKED_BOX,
      kl4_box d = CHECKED_BOX]"

definition category_boxes :: "ConclusionCategory \<Rightarrow> bool list" where
  "category_boxes c = [c = withinLimit, c = l2Process, c = l1Edit, c = l2Exceeded]"

text \<open>
  The header row the merger resolves in the supplementary grid, and the two kinds of
  column it looks for there: a header whose normalized form contains "tv", and a header
  whose normalized form is "tile" followed by digits.
\<close>

definition supp_headers :: "cell list list \<Rightarrow> ustring list" where
  "supp_headers dfSupp = header_texts (dfSupp ! detectHeaderRow dfSupp [asc ''TV'', kw_ti_le])"

definition is_tv_header :: "ustring \<Rightarrow> bool" where
  "is_tv_header h = str_includes (normalizeString (JStr h)) (asc ''tv'')"

definition is_ratio_header :: "ustring \<Rightarrow> bool" where
  "is_ratio_header h =
     (let n = normalizeString (JStr h) in
      take 4 n = asc ''tile'' \<and> drop 4 n \<noteq> [] \<and> list_all is_digit (drop 4 n))"

text \<open>
  The normalized headers of a data file, the columns of the topic title and of the student
  name that the direct-read path resolves in them, and the record it builds from a row.
\<close>

definition report_headers :: "cell list list \<Rightarrow> ustring list" where
  "report_headers json = map normalizeString (hd (readFileAsArray json))"

definition title_index :: "cell list list \<Rightarrow> nat option" where
  "title_index json = findIndex_kw (report_headers json) [kw_ten_de_tai, asc ''tendetai'']"

definition name_index :: "cell list list \<Rightarrow> nat option" where
  "name_index json = findIndex_kw (report_headers json) [kw_ho_ten_hv, asc ''hotenhv'']"

definition report_row :: "cell list list \<Rightarrow> cell list \<Rightarrow> MergedData" where
  "report_row json =
     read_row (report_headers json) (the (title_index json)) (the (name_index json))
       (findIndex_kw (report_headers json) [kw_so_hoc_vien, asc ''sohocvien''])
       (findIndex_kw (report_headers json) [kw_nguoi_huong_dan, asc ''nguoihuongdan''])
       (findIndex_kw (report_headers json) [asc ''TV''])"

text \<open>A string field that is not empty.\<close>

definition nonempty_string :: "cell \<Rightarrow> bool" where
  "nonempty_string v = (case v of JStr s \<Rightarrow> s \<noteq> [] | _ \<Rightarrow> False)"

text \<open>
  The data rows of the supplementary grid; the first TV column; the ratio columns, as
  column indices in the order of the integer that follows "tile" in the normalized header,
  read as a number: an integer up to \<open>2 ^ 53\<close> is read as it is, a larger one as the
  nearest double, and one that rounds to \<open>2 ^ 1024\<close> or more as infinity, which counts as
  \<open>2 ^ 1024\<close> here (columns with the same number keep their order); the number a cell
  holds, if any: a string with a comma or a point as decimal separator, read as the
  nearest double, or a number, NaN excluded; and the key of the chapter field of data row
  \<open>j\<close>.
\<close>

definition supp_rows :: "cell list list \<Rightarrow> cell list list" where
  "supp_rows dfSupp = drop (detectHeaderRow dfSupp [asc ''TV'', kw_ti_le] + 1) dfSupp"

definition tv_column :: "ustring list \<Rightarrow> nat option" where
  "tv_column headers = findIndex is_tv_header headers"

definition trailing_integer :: "ustring \<Rightarrow> nat" where
  "trailing_integer h = digits_val (drop 4 (normalizeString (JStr h)))"

definition trailing_number :: "ustring \<Rightarrow> rat" where
  "trailing_number h =
     (case number_value (of_nat (trailing_integer h)) of Fin q \<Rightarrow> q | _ \<Rightarrow> 2 ^ 1024)"

definition ratio_columns :: "ustring list \<Rightarrow> nat list" where
  "ratio_columns headers =
     sort_key (\<lambda>k. trailing_number (headers ! k))
       (filter (\<lambda>k. is_ratio_header (headers ! k)) [0..<length headers])"

definition parsed_number :: "cell \<Rightarrow> jsnum option" where
  "parsed_number v =
     (case v of
        JStr s \<Rightarrow>
          (case parseFloat (replace_first 44 46 s) of NaN \<Rightarrow> None | n \<Rightarrow> Some n)
      | JNum n \<Rightarrow> (case n of NaN \<Rightarrow> None | _ \<Rightarrow> Some n)
      | _ \<Rightarrow> None)"

definition chapter_key :: "nat \<Rightarrow> ustring" where
  "chapter_key j = asc ''c'' @ digits10 (j + 1)"

definition is_finite :: "jsnum \<Rightarrow> bool" where
  "is_finite n = (case n of Fin q \<Rightarrow> True | _ \<Rightarrow> False)"

text \<open>Three topics and the supplementary grids of the examples.\<close>

definition example_topics :: "AggregatedTopic list" where
  "example_topics =
     [\<lparr>ten_de_tai = JStr (asc ''T1''), ho_ten_hv = asc ''A, B'', so_hoc_vien = 2,
       nguoi_huong_dan = JStr []\<rparr>,
      \<lparr>ten_de_tai = JStr (asc ''T2''), ho_ten_hv = asc ''C'', so_hoc_vien = 1,
       nguoi_huong_dan = JStr []\<rparr>,
      \<lparr>ten_de_tai = JStr (asc ''T3''), ho_ten_hv = asc ''D'', so_hoc_vien = 1,
       nguoi_huong_dan = JStr []\<rparr>]"

definition example_supp :: "cell list list" where
  "example_supp =
     [[JStr (asc ''TV''), JStr (kw_ti_le @ asc '' 1''), JStr (kw_ti_le @ asc '' 2'')],
      [JNum (Fin 10), JStr (asc ''1,5''), JNum (Fin 3)],
      [JStr (asc ''28,5''), JStr (asc ''2''), JStr (asc ''x'')],
      [JStr [], JStr [], JNum (Fin 4)]]"

definition infinity_supp :: "cell list list" where
  "infinity_supp = [[JStr (asc ''TV'')], [JStr (asc ''Infinity'')]]"

text \<open>
  The main roster as the aggregator sees it. The header row, the data rows and the three
  columns are those the source resolves. \<open>named_cell\<close> is the cell of a row under a
  header text (if two columns have the same text, the later one). The topic of data row
  \<open>k\<close> after the forward fill is the last non-blank topic cell among the rows 0 to \<open>k\<close>,
  and the empty string when there is none. A roster row is the triple of topic (after the
  fill), student name and advisor (the empty string without an advisor column).
\<close>

definition main_headers :: "cell list list \<Rightarrow> ustring list" where
  "main_headers rawData =
     header_texts (rawData ! detectHeaderRow rawData [kw_ten_de_tai, kw_ho_ten_hv, kw_nguoi_huong_dan])"

definition main_rows :: "cell list list \<Rightarrow> cell list list" where
  "main_rows rawData =
     drop (detectHeaderRow rawData [kw_ten_de_tai, kw_ho_ten_hv, kw_nguoi_huong_dan] + 1) rawData"

definition topic_column :: "cell list list \<Rightarrow> ustring option" where
  "topic_column rawData = findColumn (main_headers rawData) [kw_ten_de_tai, asc ''De tai'']"

definition name_column :: "cell list list \<Rightarrow> ustring option" where
  "name_column rawData = findColumn (main_headers rawData) [kw_ho_ten_hv, asc ''Ten hoc vien'']"

definition guide_column :: "cell list list \<Rightarrow> ustring option" where
  "guide_column rawData = findColumn (main_headers rawData) [kw_nguoi_huong_dan]"








text \<open>The distinct elements of a list, in the order of their first appearance.\<close>

definition first_appearance :: "'a list \<Rightarrow> 'a list" where
  "first_appearance xs = rev (remdups (rev xs))"






text \<open>
  The groups of a list under a key, as an object: one property per key, in the order of
  first appearance, holding the elements with that key in their order.
\<close>

definition grouped_by :: "('a \<Rightarrow> ustring) \<Rightarrow> 'a list \<Rightarrow> 'a list obj" where
  "grouped_by key xs =
     map (\<lambda>k. (k, filter (\<lambda>x. key x = k) xs)) (first_appearance (map key xs))"





definition numeral_titles_main :: "cell list list" where
  "numeral_titles_main =
     [[JStr kw_ten_de_tai, JStr kw_ho_ten_hv],
      [JStr (asc ''2''), JStr (asc ''A'')],
      [JStr (asc ''1''), JStr (asc ''B'')]]"

section \<open>Properties of the text normalizer\<close>

lemma normalizeString_alnum: "c \<in> set (normalizeString x) \<Longrightarrow> is_alnum c"
  by (cases x) (auto simp: normalizeString_def Let_def split: if_splits)

lemma decompose_alnum: "is_alnum c \<Longrightarrow> decompose c = [c]"
  by (auto simp: decompose_def is_alnum_def)

lemma nfd_alnum: "list_all is_alnum s \<Longrightarrow> nfd s = s"
  by (induction s) (simp_all add: nfd_def decompose_alnum)

lemma not_combining_alnum: "list_all is_alnum s \<Longrightarrow> filter (\<lambda>c. \<not> is_combining c) s = s"
  by (induction s) (auto simp: is_alnum_def is_combining_def)

lemma toLowerCase_alnum: "list_all is_alnum s \<Longrightarrow> toLowerCase s = s"
  by (induction s) (auto simp: toLowerCase_def lower_unit_def is_alnum_def)

lemma no_dstroke_alnum: "list_all is_alnum s \<Longrightarrow> map (\<lambda>c. if c = 273 then 100 else c) s = s"
  by (induction s) (auto simp: is_alnum_def)

lemma filter_alnum: "list_all is_alnum s \<Longrightarrow> filter is_alnum s = s"
  by (induction s) auto

lemma normalizeString_fixes_alnum: "list_all is_alnum s \<Longrightarrow> normalizeString (JStr s) = s"
  by (simp add: normalizeString_def nfd_alnum not_combining_alnum toLowerCase_alnum
      no_dstroke_alnum filter_alnum)

lemma normalizeString_list_all: "list_all is_alnum (normalizeString x)"
  by (simp add: list_all_iff normalizeString_alnum)

lemmas normalize_eval =
  normalizeString_def nfd_def decompose_def nfd_block_def toLowerCase_def lower_unit_def
  is_combining_def is_alnum_def asc_def Let_def

lemmas nfd_tables =
  nfd_00C0_def nfd_00E0_def nfd_0100_def nfd_0120_def nfd_0140_def nfd_0160_def nfd_01A0_def
  nfd_01C0_def nfd_01E0_def nfd_0200_def nfd_0220_def nfd_1E00_def nfd_1E20_def nfd_1E40_def
  nfd_1E60_def nfd_1E80_def nfd_1EA0_def nfd_1EC0_def nfd_1EE0_def nfd_2120_def

text \<open>
  C7. The text normalizer is idempotent; it yields the empty string on \<open>null\<close>,
  \<open>undefined\<close>, numbers, booleans and the empty string (it has no failing branch); and
  the accented, capitalised "De Tai" (D with stroke, e with circumflex and grave, a with
  grave) has the same key as the plain "de tai".
\<close>

theorem normalizeString_idempotent_total:
  "normalizeString (JStr (normalizeString x)) = normalizeString x
   \<and> normalizeString JNull = [] \<and> normalizeString JUndefined = []
   \<and> normalizeString (JNum n) = [] \<and> normalizeString (JBool b) = []
   \<and> normalizeString (JStr []) = normalizeString JNull
   \<and> normalizeString (JStr [272, 7873, 32, 84, 224, 105]) = normalizeString (JStr (asc ''de tai''))
   \<and> normalizeString (JStr [68, 202, 32, 84, 65, 73]) = normalizeString (JStr (asc ''de tai''))"
proof -
  have idem: "normalizeString (JStr (normalizeString x)) = normalizeString x"
    by (rule normalizeString_fixes_alnum) (rule normalizeString_list_all)
  have plain: "normalizeString (JStr (asc ''de tai'')) = asc ''detai''"
    by (simp add: normalize_eval)
  have accented: "normalizeString (JStr [272, 7873, 32, 84, 224, 105]) = asc ''detai''"
    by (simp add: normalize_eval nfd_tables)
  have capitals: "normalizeString (JStr [68, 202, 32, 84, 65, 73]) = asc ''detai''"
    by (simp add: normalize_eval nfd_tables)
  show ?thesis
    using idem plain accented capitals by (simp add: normalizeString_def)
qed

theorem normalizeString_idempotent_total_witness:
  "normalizeString (JStr (normalizeString (JStr [72, 7885, 32, 116, 234, 110, 32, 72, 86])))
     = asc ''hotenhv''"
proof -
  have "normalizeString (JStr [72, 7885, 32, 116, 234, 110, 32, 72, 86]) = asc ''hotenhv''"
    by (simp add: normalize_eval nfd_tables)
  then show ?thesis
    using normalizeString_idempotent_total
      [of "JStr [72, 7885, 32, 116, 234, 110, 32, 72, 86]" NaN True]
    by simp
qed

subsection \<open>The normalized keywords\<close>

lemma norm_ten_de_tai: "normalizeString (JStr kw_ten_de_tai) = asc ''tendetai''"
  by (simp add: kw_ten_de_tai_def normalize_eval nfd_tables)

lemma norm_ho_ten_hv: "normalizeString (JStr kw_ho_ten_hv) = asc ''hotenhv''"
  by (simp add: kw_ho_ten_hv_def normalize_eval nfd_tables)

lemma norm_nguoi_huong_dan: "normalizeString (JStr kw_nguoi_huong_dan) = asc ''nguoihuongdan''"
  by (simp add: kw_nguoi_huong_dan_def normalize_eval nfd_tables)

lemma norm_so_hoc_vien: "normalizeString (JStr kw_so_hoc_vien) = asc ''sohocvien''"
  by (simp add: kw_so_hoc_vien_def normalize_eval nfd_tables)

lemma norm_ti_le: "normalizeString (JStr kw_ti_le) = asc ''tile''"
  by (simp add: kw_ti_le_def normalize_eval nfd_tables)

lemma norm_De_tai: "normalizeString (JStr (asc ''De tai'')) = asc ''detai''"
  by (simp add: normalize_eval)

lemma norm_Ten_hoc_vien: "normalizeString (JStr (asc ''Ten hoc vien'')) = asc ''tenhocvien''"
  by (simp add: normalize_eval)

lemma norm_TV: "normalizeString (JStr (asc ''TV'')) = asc ''tv''"
  by (simp add: normalize_eval)

lemma norm_tendetai: "normalizeString (JStr (asc ''tendetai'')) = asc ''tendetai''"
  by (simp add: normalize_eval)

lemma norm_hotenhv: "normalizeString (JStr (asc ''hotenhv'')) = asc ''hotenhv''"
  by (simp add: normalize_eval)

lemma norm_sohocvien: "normalizeString (JStr (asc ''sohocvien'')) = asc ''sohocvien''"
  by (simp add: normalize_eval)

lemma norm_nguoihuongdan: "normalizeString (JStr (asc ''nguoihuongdan'')) = asc ''nguoihuongdan''"
  by (simp add: normalize_eval)

lemmas norm_keywords =
  norm_ten_de_tai norm_ho_ten_hv norm_nguoi_huong_dan norm_so_hoc_vien norm_ti_le
  norm_De_tai norm_Ten_hoc_vien norm_TV norm_tendetai norm_hotenhv norm_sohocvien
  norm_nguoihuongdan

section \<open>Properties of the classifier\<close>

lemmas num_cmp = num_gt_def num_ge_def

text \<open>
  C1. On a finite \<open>tv\<close> the classifier follows the threshold table: for DATN, below 25
  is withinLimit, from 25 to 35 (both included) is l1Edit on a first check and l2Process
  otherwise, above 35 is l1Edit on a first check and l2Exceeded otherwise; for BCCD the
  same with 30 and 40. An absent \<open>tv\<close> reaches the classifier as 0 and is withinLimit.
\<close>

theorem getConclusionCategory_table:
  "(x < 25 \<longrightarrow> getConclusionCategory (Fin x) DATN isFirstCheck = withinLimit)
   \<and> (25 \<le> x \<and> x \<le> 35 \<longrightarrow>
        getConclusionCategory (Fin x) DATN isFirstCheck = (if isFirstCheck then l1Edit else l2Process))
   \<and> (35 < x \<longrightarrow>
        getConclusionCategory (Fin x) DATN isFirstCheck = (if isFirstCheck then l1Edit else l2Exceeded))
   \<and> (x < 30 \<longrightarrow> getConclusionCategory (Fin x) BCCD isFirstCheck = withinLimit)
   \<and> (30 \<le> x \<and> x \<le> 40 \<longrightarrow>
        getConclusionCategory (Fin x) BCCD isFirstCheck = (if isFirstCheck then l1Edit else l2Process))
   \<and> (40 < x \<longrightarrow>
        getConclusionCategory (Fin x) BCCD isFirstCheck = (if isFirstCheck then l1Edit else l2Exceeded))
   \<and> tv_or_0 None = Fin 0
   \<and> getConclusionCategory (tv_or_0 None) projectType isFirstCheck = withinLimit"
  by (cases projectType) (auto simp: getConclusionCategory_def num_cmp tv_or_0_def)

theorem getConclusionCategory_table_witness:
  "getConclusionCategory (Fin (249 / 10)) DATN True = withinLimit
   \<and> getConclusionCategory (Fin 25) DATN True = l1Edit
   \<and> getConclusionCategory (Fin 35) DATN False = l2Process
   \<and> getConclusionCategory (Fin (351 / 10)) DATN False = l2Exceeded
   \<and> getConclusionCategory (Fin 30) BCCD True = l1Edit
   \<and> getConclusionCategory (Fin 40) BCCD False = l2Process
   \<and> getConclusionCategory (Fin (401 / 10)) BCCD False = l2Exceeded
   \<and> getConclusionCategory (Fin 0) DATN True = withinLimit"
  using getConclusionCategory_table [of "249 / 10" True DATN]
    getConclusionCategory_table [of 25 True DATN]
    getConclusionCategory_table [of 35 False DATN]
    getConclusionCategory_table [of "351 / 10" False DATN]
    getConclusionCategory_table [of 30 True BCCD]
    getConclusionCategory_table [of 40 False BCCD]
    getConclusionCategory_table [of "401 / 10" False BCCD]
    getConclusionCategory_table [of 0 True DATN]
  by simp

text \<open>
  C3. On a finite \<open>tv\<close> (and on any argument \<open>row.tv || 0\<close> the callers pass) the
  presentation checks exactly one of its four boxes, and the checked box is the one of the
  category the classifier returns: \<open>kl1_box\<close> for withinLimit, \<open>kl3_box\<close> for l1Edit,
  \<open>kl2_box\<close> for l2Process, \<open>kl4_box\<close> for l2Exceeded.
\<close>

lemma boxes_agree_not_NaN:
  "n \<noteq> NaN \<Longrightarrow>
     checked_boxes (getConclusionData n projectType isFirstCheck)
       = category_boxes (getConclusionCategory n projectType isFirstCheck)"
  by (cases n)
    (auto simp: getConclusionData_def getConclusionCategory_def conclusions_init_def num_cmp
      checked_boxes_def category_boxes_def CHECKED_BOX_def UNCHECKED_BOX_def Let_def)

lemma tv_or_0_not_NaN: "tv_or_0 x \<noteq> NaN"
  by (auto simp: tv_or_0_def split: option.splits)

lemma category_boxes_one: "length (filter id (category_boxes c)) = 1"
  by (cases c) (simp_all add: category_boxes_def)

theorem getConclusionData_agrees:
  "checked_boxes (getConclusionData (Fin x) projectType isFirstCheck)
     = category_boxes (getConclusionCategory (Fin x) projectType isFirstCheck)
   \<and> length (filter id (checked_boxes (getConclusionData (Fin x) projectType isFirstCheck))) = 1
   \<and> checked_boxes (getConclusionData (tv_or_0 row_tv) projectType isFirstCheck)
     = category_boxes (getConclusionCategory (tv_or_0 row_tv) projectType isFirstCheck)
   \<and> length (filter id (checked_boxes (getConclusionData (tv_or_0 row_tv) projectType isFirstCheck))) = 1"
  by (simp add: boxes_agree_not_NaN tv_or_0_not_NaN category_boxes_one)

theorem getConclusionData_agrees_witness:
  "checked_boxes (getConclusionData (Fin 35) DATN False) = [False, True, False, False]
   \<and> getConclusionCategory (Fin 35) DATN False = l2Process"
proof -
  have "getConclusionCategory (Fin 35) DATN False = l2Process"
    by (simp add: getConclusionCategory_def num_cmp)
  then show ?thesis
    using getConclusionData_agrees [of 35 DATN False None]
    by (simp add: category_boxes_def)
qed

section \<open>Properties of the effective project type\<close>

lemma normalize_Mau_DATN: "normalizeString (JStr (asc ''Mau_DATN_v2.docx'')) = asc ''maudatnv2docx''"
  by (simp add: normalize_eval)

lemma normalize_template: "normalizeString (JStr (asc ''template.docx'')) = asc ''templatedocx''"
  by (simp add: normalize_eval)

text \<open>
  C6. The effective project type is DATN when the normalized name of the template file
  contains "datn" or "kltn", else BCCD when it contains "bccd", else the configured type;
  the statistics and the renderer compute the same type. For "Mau_DATN_v2.docx" the type
  is DATN and the base name "KQ_" followed by the string of DATN, whatever is configured;
  "template.docx" falls back to the configured type.
\<close>

theorem effectiveProjectType_resolution:
  "reportEffectiveProjectType fileName configured =
     (if str_includes (normalizeString (JStr fileName)) (asc ''datn'')
         \<or> str_includes (normalizeString (JStr fileName)) (asc ''kltn'') then DATN
      else if str_includes (normalizeString (JStr fileName)) (asc ''bccd'') then BCCD
      else configured)
   \<and> statsEffectiveProjectType fileName configured = reportEffectiveProjectType fileName configured
   \<and> reportEffectiveProjectType (asc ''Mau_DATN_v2.docx'') configured = DATN
   \<and> baseName (asc ''Mau_DATN_v2.docx'') configured = asc ''KQ_'' @ projectType_str DATN
   \<and> reportEffectiveProjectType (asc ''template.docx'') configured = configured
   \<and> statsEffectiveProjectType (asc ''template.docx'') configured = configured"
proof -
  have a1: "reportEffectiveProjectType fileName configured =
     (if str_includes (normalizeString (JStr fileName)) (asc ''datn'')
         \<or> str_includes (normalizeString (JStr fileName)) (asc ''kltn'') then DATN
      else if str_includes (normalizeString (JStr fileName)) (asc ''bccd'') then BCCD
      else configured)"
    by (simp add: reportEffectiveProjectType_def Let_def)
  have a2: "statsEffectiveProjectType fileName configured
      = reportEffectiveProjectType fileName configured"
    by (simp add: statsEffectiveProjectType_def reportEffectiveProjectType_def)
  have a3: "reportEffectiveProjectType (asc ''Mau_DATN_v2.docx'') configured = DATN"
    by (simp add: reportEffectiveProjectType_def normalize_Mau_DATN) (simp add: asc_def)
  have a4: "baseName (asc ''Mau_DATN_v2.docx'') configured = asc ''KQ_'' @ projectType_str DATN"
    by (simp add: baseName_def normalize_Mau_DATN) (simp add: asc_def)
  have a5: "reportEffectiveProjectType (asc ''template.docx'') configured = configured"
    by (simp add: reportEffectiveProjectType_def normalize_template) (simp add: asc_def)
  have a6: "statsEffectiveProjectType (asc ''template.docx'') configured = configured"
    by (simp add: statsEffectiveProjectType_def normalize_template) (simp add: asc_def)
  show ?thesis
    by (intro conjI) (rule a1, rule a2, rule a3, rule a4, rule a5, rule a6)
qed

theorem effectiveProjectType_resolution_witness:
  "reportEffectiveProjectType (asc ''Mau_DATN_v2.docx'') BCCD = DATN
   \<and> statsEffectiveProjectType (asc ''Mau_DATN_v2.docx'') BCCD = DATN
   \<and> baseName (asc ''Mau_DATN_v2.docx'') BCCD = [75, 81, 95, 272, 65, 84, 78]
   \<and> reportEffectiveProjectType (asc ''template.docx'') BCCD = BCCD"
proof -
  note t = effectiveProjectType_resolution [of "asc ''Mau_DATN_v2.docx''" BCCD]
  have b1: "reportEffectiveProjectType (asc ''Mau_DATN_v2.docx'') BCCD = DATN"
    using t by blast
  have b2: "statsEffectiveProjectType (asc ''Mau_DATN_v2.docx'') BCCD = DATN"
    using t by metis
  have b3: "baseName (asc ''Mau_DATN_v2.docx'') BCCD = asc ''KQ_'' @ projectType_str DATN"
    using t by blast
  have b4: "reportEffectiveProjectType (asc ''template.docx'') BCCD = BCCD"
    using t by blast
  have b5: "asc ''KQ_'' @ projectType_str DATN = [75, 81, 95, 272, 65, 84, 78]"
    by (simp add: asc_def)
  show ?thesis
    using b1 b2 b3 b4 b5 by simp
qed

section \<open>Properties of the header locator\<close>

lemma detectHeaderRow_from_first:
  "i \<le> k \<Longrightarrow> k < min 10 (length data) \<Longrightarrow> 2 \<le> matchCount kws (data ! k)
   \<Longrightarrow> (\<And>j. i \<le> j \<Longrightarrow> j < k \<Longrightarrow> matchCount kws (data ! j) < 2)
   \<Longrightarrow> detectHeaderRow_from i data kws = k"
proof (induction i data kws rule: detectHeaderRow_from.induct)
  case (1 i data kws)
  show ?case
  proof (cases "i = k")
    case True
    with "1.prems" show ?thesis
      by (subst detectHeaderRow_from.simps) simp
  next
    case False
    with "1.prems" have lt: "i < k" by simp
    with "1.prems" have here: "\<not> 2 \<le> matchCount kws (data ! i)" by fastforce
    from lt "1.prems" have range: "i < min 10 (length data)" by simp
    have "detectHeaderRow_from (i + 1) data kws = k"
      using "1.IH" [OF range here] lt "1.prems" by simp
    with range here show ?thesis
      by (subst detectHeaderRow_from.simps) simp
  qed
qed

lemma detectHeaderRow_from_none:
  "(\<And>j. i \<le> j \<Longrightarrow> j < min 10 (length data) \<Longrightarrow> matchCount kws (data ! j) < 2)
   \<Longrightarrow> detectHeaderRow_from i data kws = 0"
proof (induction i data kws rule: detectHeaderRow_from.induct)
  case (1 i data kws)
  show ?case
  proof (cases "i < min 10 (length data)")
    case True
    with "1.prems" have here: "\<not> 2 \<le> matchCount kws (data ! i)" by fastforce
    have "detectHeaderRow_from (i + 1) data kws = 0"
      using "1.IH" [OF True here] "1.prems" by simp
    with True here show ?thesis
      by (subst detectHeaderRow_from.simps) simp
  next
    case False
    then show ?thesis
      by (subst detectHeaderRow_from.simps) auto
  qed
qed

lemma detectHeaderRow_from_take:
  "detectHeaderRow_from i (take 10 data) kws = detectHeaderRow_from i data kws"
proof (induction i data kws rule: detectHeaderRow_from.induct)
  case (1 i data kws)
  have unfold_l: "detectHeaderRow_from i (take 10 data) kws =
      (if i < min 10 (length data) then
         (if 2 \<le> matchCount kws (data ! i) then i
          else detectHeaderRow_from (i + 1) (take 10 data) kws)
       else 0)"
    by (subst detectHeaderRow_from.simps) auto
  have unfold_r: "detectHeaderRow_from i data kws =
      (if i < min 10 (length data) then
         (if 2 \<le> matchCount kws (data ! i) then i
          else detectHeaderRow_from (i + 1) data kws)
       else 0)"
    by (subst detectHeaderRow_from.simps) auto
  show ?case
    unfolding unfold_l unfold_r using "1.IH" by auto
qed

lemma detectHeaderRow_range: "detectHeaderRow_from i data kws < max 1 (length data)"
proof (induction i data kws rule: detectHeaderRow_from.induct)
  case (1 i data kws)
  show ?case
  proof (cases "i < min 10 (length data) \<and> \<not> 2 \<le> matchCount kws (data ! i)")
    case True
    then have "detectHeaderRow_from i data kws = detectHeaderRow_from (i + 1) data kws"
      by (subst detectHeaderRow_from.simps) simp
    with True "1.IH" show ?thesis by simp
  next
    case False
    then show ?thesis
      by (subst detectHeaderRow_from.simps) auto
  qed
qed

lemma detectHeaderRow_lt: "data \<noteq> [] \<Longrightarrow> detectHeaderRow data kws < length data"
  using detectHeaderRow_range [of 0 data kws] by (cases data) (simp_all add: detectHeaderRow_def)

text \<open>
  C8. The header locator looks at the first ten rows only. The match count of a row is the
  number of its cells whose normalized form contains the normalized form of some keyword.
  The result is the index of the first of the rows 0 to \<open>min 10 (length data) - 1\<close> whose
  count is at least 2, and 0 when none of them has one; there is no failing branch.
\<close>

theorem detectHeaderRow_first_qualifying:
  "detectHeaderRow data kws = detectHeaderRow (take 10 data) kws
   \<and> matchCount kws row =
       length (filter (\<lambda>c. \<exists>kw \<in> set kws.
                 str_includes (normalizeString c) (normalizeString (JStr kw))) row)
   \<and> (k < min 10 (length data) \<and> 2 \<le> matchCount kws (data ! k)
        \<and> (\<forall>j < k. matchCount kws (data ! j) < 2)
       \<longrightarrow> detectHeaderRow data kws = k)
   \<and> ((\<forall>j < min 10 (length data). matchCount kws (data ! j) < 2)
       \<longrightarrow> detectHeaderRow data kws = 0)"
proof -
  have scan: "detectHeaderRow data kws = detectHeaderRow (take 10 data) kws"
    by (simp add: detectHeaderRow_def detectHeaderRow_from_take)
  have count: "matchCount kws row =
       length (filter (\<lambda>c. \<exists>kw \<in> set kws.
                 str_includes (normalizeString c) (normalizeString (JStr kw))) row)"
    unfolding matchCount_def cell_matches_def [abs_def] by (simp add: list_ex_iff)
  have first: "k < min 10 (length data) \<and> 2 \<le> matchCount kws (data ! k)
        \<and> (\<forall>j < k. matchCount kws (data ! j) < 2)
       \<longrightarrow> detectHeaderRow data kws = k"
    unfolding detectHeaderRow_def
    by (intro impI detectHeaderRow_from_first) auto
  have none: "(\<forall>j < min 10 (length data). matchCount kws (data ! j) < 2)
       \<longrightarrow> detectHeaderRow data kws = 0"
    unfolding detectHeaderRow_def
    by (intro impI detectHeaderRow_from_none) auto
  show ?thesis
    by (intro conjI) (rule scan, rule count, rule first, rule none)
qed

theorem detectHeaderRow_first_qualifying_witness:
  "detectHeaderRow
     [[JStr (asc ''Danh sach''), JNull],
      [JStr kw_ten_de_tai, JNum (Fin 1)],
      [JStr kw_ten_de_tai, JStr kw_ho_ten_hv]]
     [kw_ten_de_tai, kw_ho_ten_hv, kw_nguoi_huong_dan] = 2
   \<and> detectHeaderRow [[JStr (asc ''Danh sach''), JNull], [JStr (asc ''x''), JStr (asc ''y'')]]
     [kw_ten_de_tai, kw_ho_ten_hv, kw_nguoi_huong_dan] = 0"
proof -
  let ?kws = "[kw_ten_de_tai, kw_ho_ten_hv, kw_nguoi_huong_dan]"
  let ?d = "[[JStr (asc ''Danh sach''), JNull],
      [JStr kw_ten_de_tai, JNum (Fin 1)],
      [JStr kw_ten_de_tai, JStr kw_ho_ten_hv]]"
  let ?e = "[[JStr (asc ''Danh sach''), JNull], [JStr (asc ''x''), JStr (asc ''y'')]]"
  have n0: "normalizeString (JStr (asc ''Danh sach'')) = asc ''danhsach''"
    by (simp add: normalize_eval)
  have nx: "normalizeString (JStr (asc ''x'')) = asc ''x''"
    and ny: "normalizeString (JStr (asc ''y'')) = asc ''y''"
    by (simp_all add: normalize_eval)
  have nn: "normalizeString JNull = []" "normalizeString (JNum (Fin 1)) = []"
    by (simp_all add: normalizeString_def)
  have m0: "matchCount ?kws [JStr (asc ''Danh sach''), JNull] = 0"
    by (simp add: matchCount_def cell_matches_def norm_keywords n0 nn) (simp add: asc_def)
  have m1: "matchCount ?kws [JStr kw_ten_de_tai, JNum (Fin 1)] = 1"
    by (simp add: matchCount_def cell_matches_def norm_keywords nn) (simp add: asc_def)
  have m2: "matchCount ?kws [JStr kw_ten_de_tai, JStr kw_ho_ten_hv] = 2"
    by (simp add: matchCount_def cell_matches_def norm_keywords) (simp add: asc_def)
  have m3: "matchCount ?kws [JStr (asc ''x''), JStr (asc ''y'')] = 0"
    by (simp add: matchCount_def cell_matches_def norm_keywords nx ny) (simp add: asc_def)
  have before: "\<forall>j<2. matchCount ?kws (?d ! j) < 2"
    using m0 m1 by (auto simp: less_Suc_eq numeral_2_eq_2)
  have nowhere: "\<forall>j < min 10 (length ?e). matchCount ?kws (?e ! j) < 2"
    using m0 m3 by (auto simp: less_Suc_eq)
  have "detectHeaderRow ?d ?kws = 2"
    using detectHeaderRow_first_qualifying [of ?d ?kws "[]" 2] before m2 by simp
  moreover have "detectHeaderRow ?e ?kws = 0"
    using detectHeaderRow_first_qualifying [of ?e ?kws "[]" 0] nowhere by blast
  ultimately show ?thesis by simp
qed

section \<open>Properties of the Number value\<close>

text \<open>A double is its own Number value; so is every integer up to \<open>2 ^ 53\<close>.\<close>

lemma binary_exponent_le:
  assumes "0 < q"
  shows "2 powi binary_exponent q \<le> q"
proof (cases "1 \<le> q")
  case True
  then have pos: "0 < \<lfloor>q\<rfloor>" by simp
  from bitlen_bounds [OF pos] have "2 ^ nat (bitlen \<lfloor>q\<rfloor> - 1) \<le> \<lfloor>q\<rfloor>" by simp
  then have "(of_int (2 ^ nat (bitlen \<lfloor>q\<rfloor> - 1)) :: rat) \<le> of_int \<lfloor>q\<rfloor>"
    by (simp only: of_int_le_iff)
  also have "\<dots> \<le> q" by simp
  finally have "(2 :: rat) ^ nat (bitlen \<lfloor>q\<rfloor> - 1) \<le> q" by simp
  moreover have "1 \<le> bitlen \<lfloor>q\<rfloor>"
    using pos bitlen_eq_zero_iff [of "\<lfloor>q\<rfloor>"] bitlen_nonneg [of "\<lfloor>q\<rfloor>"] by linarith
  ultimately show ?thesis
    using True by (simp add: binary_exponent_def power_int_def)
next
  case False
  let ?c = "\<lceil>1 / q\<rceil>"
  let ?n = "bitlen (?c - 1)"
  from False assms have "1 < 1 / q" by simp
  then have c2: "1 < ?c" by (simp add: less_ceiling_iff)
  then have pos: "0 < ?c - 1" by simp
  from bitlen_bounds [OF pos] have "?c - 1 < 2 ^ nat ?n" by simp
  then have "?c \<le> 2 ^ nat ?n" by simp
  then have "(of_int ?c :: rat) \<le> of_int (2 ^ nat ?n)" by (simp only: of_int_le_iff)
  then have "(of_int ?c :: rat) \<le> 2 ^ nat ?n" by simp
  moreover have "1 / q \<le> of_int ?c" by simp
  ultimately have "1 / q \<le> 2 ^ nat ?n" by linarith
  then have "1 \<le> 2 ^ nat ?n * q" using assms by (simp add: field_simps)
  then have "1 / 2 ^ nat ?n \<le> q" by (simp add: field_simps)
  then have low: "1 / 2 ^ nat ?n \<le> q" .
  have "0 \<le> ?n" by (rule bitlen_nonneg)
  then have "(2 :: rat) powi ?n = 2 ^ nat ?n" by (simp add: power_int_def)
  then have "(2 :: rat) powi (- ?n) = 1 / 2 ^ nat ?n"
    by (simp only: power_int_minus inverse_eq_divide)
  with low have "2 powi (- ?n) \<le> q" by simp
  then show ?thesis
    using False by (simp add: binary_exponent_def)
qed

lemma round_half_even_of_int: "round_half_even (of_int m) = m"
  by (simp add: round_half_even_def)

lemma round_positive_dyadic:
  assumes k: "0 < k" "k < 2 ^ 53" and j: "- 1074 \<le> j"
    and small: "of_nat k * 2 powi j < (2 :: rat) ^ 1024"
  shows "round_positive (of_nat k * 2 powi j) = Fin (of_nat k * 2 powi j)"
proof -
  let ?q = "of_nat k * 2 powi j :: rat"
  let ?e = "max (binary_exponent ?q) (- 1022) - 52"
  have qpos: "0 < ?q" using k by simp
  have "?q < 2 ^ 53 * 2 powi j"
  proof -
    have "(of_nat k :: rat) < of_nat (2 ^ 53)" using k(2) by (simp only: of_nat_less_iff)
    then have "(of_nat k :: rat) < 2 ^ 53" by simp
    then show ?thesis by simp
  qed
  also have "\<dots> = 2 powi (53 + j)" by (simp add: power_int_add)
  finally have upper: "?q < 2 powi (53 + j)" .
  have "binary_exponent ?q < 53 + j"
  proof (rule ccontr)
    assume "\<not> binary_exponent ?q < 53 + j"
    then have "53 + j \<le> binary_exponent ?q" by simp
    then have "(2 :: rat) powi (53 + j) \<le> 2 powi binary_exponent ?q"
      by (intro power_int_increasing) simp_all
    with binary_exponent_le [OF qpos] upper show False by linarith
  qed
  with j have le: "?e \<le> j" by simp
  have "?q / 2 powi ?e = of_nat k * 2 powi (j - ?e)"
    by (simp add: power_int_diff)
  also have "\<dots> = of_nat k * 2 ^ nat (j - ?e)"
    using le by (simp add: power_int_def)
  also have "\<dots> = of_int (int k * 2 ^ nat (j - ?e))" by simp
  finally have quot: "?q / 2 powi ?e = of_int (int k * 2 ^ nat (j - ?e))" .
  have "of_int (round_half_even (?q / 2 powi ?e)) * 2 powi ?e = ?q / 2 powi ?e * 2 powi ?e"
    unfolding quot round_half_even_of_int ..
  also have "\<dots> = ?q" by simp
  finally have same: "of_int (round_half_even (?q / 2 powi ?e)) * 2 powi ?e = ?q" .
  show ?thesis
    unfolding round_positive_def Let_def same using small by simp
qed

lemma number_value_dyadic:
  assumes "\<bar>m\<bar> < 2 ^ 53" and "- 1074 \<le> j" and "\<bar>of_int m * 2 powi j\<bar> < (2 :: rat) ^ 1024"
  shows "number_value (of_int m * 2 powi j) = Fin (of_int m * 2 powi j)"
proof -
  consider "m = 0" | "0 < m" | "m < 0" by linarith
  then show ?thesis
  proof cases
    case 1
    then show ?thesis by (simp add: number_value_def)
  next
    case 2
    then have "0 < nat m" "nat m < 2 ^ 53" using assms(1) by simp_all
    moreover have "of_nat (nat m) * 2 powi j < (2 :: rat) ^ 1024"
      using 2 assms(3) by (simp add: abs_mult)
    ultimately have "round_positive (of_nat (nat m) * 2 powi j) = Fin (of_nat (nat m) * 2 powi j)"
      using assms(2) by (intro round_positive_dyadic)
    moreover have "0 < (of_int m :: rat) * 2 powi j" using 2 by simp
    moreover have "(of_nat (nat m) :: rat) = of_int m" using 2 by simp
    ultimately show ?thesis unfolding number_value_def by simp
  next
    case 3
    then have "0 < nat (- m)" "nat (- m) < 2 ^ 53" using assms(1) by simp_all
    moreover have "of_nat (nat (- m)) * 2 powi j < (2 :: rat) ^ 1024"
      using 3 assms(3) by (simp add: abs_mult)
    ultimately have "round_positive (of_nat (nat (- m)) * 2 powi j) = Fin (of_nat (nat (- m)) * 2 powi j)"
      using assms(2) by (intro round_positive_dyadic)
    moreover have neg: "(of_int m :: rat) * 2 powi j < 0" using 3 by (simp add: mult_less_0_iff)
    moreover have "(of_nat (nat (- m)) :: rat) = - of_int m" using 3 by simp
    ultimately have "round_positive (- (of_int m * 2 powi j)) = Fin (- (of_int m * 2 powi j))"
      by simp
    with neg show ?thesis unfolding number_value_def by simp
  qed
qed

lemma number_value_nat:
  assumes "n \<le> 2 ^ 53"
  shows "number_value (of_nat n) = Fin (of_nat n)"
proof (cases "n = 2 ^ 53")
  case True
  have "number_value (of_int 1 * 2 powi 53) = Fin (of_int 1 * 2 powi 53)"
    by (rule number_value_dyadic) simp_all
  then show ?thesis using True by simp
next
  case False
  with assms have "n < 2 ^ 53" by simp
  then have "\<bar>int n\<bar> < 2 ^ 53" by (simp add: of_nat_less_iff [of n "2 ^ 53", where ?'a = int, simplified])
  moreover have "\<bar>of_int (int n) * 2 powi 0\<bar> < (2 :: rat) ^ 1024"
  proof -
    have "(of_nat n :: rat) < of_nat (2 ^ 53)" using \<open>n < 2 ^ 53\<close> by (simp only: of_nat_less_iff)
    also have "\<dots> < 2 ^ 1024" by simp
    finally show ?thesis by simp
  qed
  ultimately have "number_value (of_int (int n) * 2 powi 0) = Fin (of_int (int n) * 2 powi 0)"
    by (intro number_value_dyadic) simp_all
  then show ?thesis by simp
qed

text \<open>
  The binary exponent is the one its bounds determine; a number from \<open>2 ^ 1024\<close> on
  has an infinite Number value; and the rounding of a number whose binary exponent and
  whose quotient by the spacing are known.
\<close>

lemma binary_exponent_less:
  assumes "0 < q"
  shows "q < 2 powi (binary_exponent q + 1)"
proof (cases "1 \<le> q")
  case True
  then have pos: "0 < \<lfloor>q\<rfloor>" by simp
  have one: "1 \<le> bitlen \<lfloor>q\<rfloor>"
    using pos bitlen_eq_zero_iff [of "\<lfloor>q\<rfloor>"] bitlen_nonneg [of "\<lfloor>q\<rfloor>"] by linarith
  from bitlen_bounds [OF pos] have "\<lfloor>q\<rfloor> < 2 ^ nat (bitlen \<lfloor>q\<rfloor>)" by simp
  then have "\<lfloor>q\<rfloor> + 1 \<le> 2 ^ nat (bitlen \<lfloor>q\<rfloor>)" by simp
  then have "(of_int (\<lfloor>q\<rfloor> + 1) :: rat) \<le> of_int (2 ^ nat (bitlen \<lfloor>q\<rfloor>))"
    by (simp only: of_int_le_iff)
  moreover have "q < of_int (\<lfloor>q\<rfloor> + 1)" by linarith
  ultimately have "q < 2 ^ nat (bitlen \<lfloor>q\<rfloor>)" by simp
  then show ?thesis
    using True one by (simp add: binary_exponent_def power_int_def)
next
  case False
  let ?c = "\<lceil>1 / q\<rceil>"
  let ?n = "bitlen (?c - 1)"
  from False assms have "1 < 1 / q" by simp
  then have c2: "1 < ?c" by (simp add: less_ceiling_iff)
  then have pos: "0 < ?c - 1" by simp
  have one: "1 \<le> ?n"
    using pos bitlen_eq_zero_iff [of "?c - 1"] bitlen_nonneg [of "?c - 1"] by linarith
  from bitlen_bounds [OF pos] have "2 ^ nat (?n - 1) \<le> ?c - 1" by simp
  then have "(of_int (2 ^ nat (?n - 1)) :: rat) \<le> of_int (?c - 1)"
    by (simp only: of_int_le_iff)
  moreover have "of_int (?c - 1) < 1 / q"
    using ceiling_correct [of "1 / q"] by simp
  ultimately have "(2 :: rat) ^ nat (?n - 1) < 1 / q" by simp
  then have "2 ^ nat (?n - 1) * q < 1" using assms by (simp add: field_simps)
  then have low: "q < 1 / 2 ^ nat (?n - 1)" by (simp add: field_simps)
  have "(2 :: rat) powi (?n - 1) = 2 ^ nat (?n - 1)" using one by (simp add: power_int_def)
  then have "(2 :: rat) powi (- (?n - 1)) = 1 / 2 ^ nat (?n - 1)"
    by (simp only: power_int_minus inverse_eq_divide)
  with low have "q < 2 powi (- (?n - 1))" by simp
  moreover have "- (?n - 1) = - ?n + 1" by simp
  ultimately show ?thesis
    using False by (simp add: binary_exponent_def)
qed

lemma binary_exponent_eq:
  assumes "2 powi e \<le> q" and "q < 2 powi (e + 1)"
  shows "binary_exponent q = e"
proof -
  have "(0 :: rat) < 2 powi e" by simp
  with assms(1) have pos: "0 < q" by linarith
  note lo = binary_exponent_le [OF pos] and hi = binary_exponent_less [OF pos]
  have "\<not> binary_exponent q < e"
  proof
    assume "binary_exponent q < e"
    then have "binary_exponent q + 1 \<le> e" by simp
    then have "(2 :: rat) powi (binary_exponent q + 1) \<le> 2 powi e"
      by (intro power_int_increasing) simp_all
    with hi assms(1) show False by linarith
  qed
  moreover have "\<not> e < binary_exponent q"
  proof
    assume "e < binary_exponent q"
    then have "e + 1 \<le> binary_exponent q" by simp
    then have "(2 :: rat) powi (e + 1) \<le> 2 powi binary_exponent q"
      by (intro power_int_increasing) simp_all
    with lo assms(2) show False by linarith
  qed
  ultimately show ?thesis by linarith
qed

lemma round_half_even_ge: "\<lfloor>r\<rfloor> \<le> round_half_even r"
  by (simp add: round_half_even_def Let_def)

lemma number_value_overflow:
  assumes "2 ^ 1024 \<le> q"
  shows "number_value q = PosInf"
proof -
  have pos: "0 < q" using assms by (rule less_le_trans [rotated]) simp
  let ?e = "binary_exponent q"
  have "(2 :: rat) powi 1024 \<le> q" using assms by simp
  also have "q < 2 powi (?e + 1)" by (rule binary_exponent_less [OF pos])
  finally have "\<not> ?e + 1 \<le> 1024"
    using power_int_increasing [of "?e + 1" 1024 "2 :: rat"] by auto
  then have e: "1024 \<le> ?e" by simp
  then have mx: "max ?e (- 1022) = ?e" by simp
  let ?u = "(2 :: rat) powi (?e - 52)"
  have upos: "0 < ?u" by simp
  have "2 powi ?e / ?u \<le> q / ?u"
    using binary_exponent_le [OF pos] upos by (simp add: divide_right_mono)
  moreover have "2 powi ?e / ?u = (2 :: rat) powi 52"
    by (simp add: power_int_diff [symmetric])
  ultimately have "(2 :: rat) ^ 52 \<le> q / ?u" by simp
  then have "(of_int (2 ^ 52) :: rat) \<le> q / ?u" by simp
  then have "2 ^ 52 \<le> \<lfloor>q / ?u\<rfloor>" by (simp only: le_floor_iff)
  with round_half_even_ge [of "q / ?u"] have "2 ^ 52 \<le> round_half_even (q / ?u)" by linarith
  then have "(of_int (2 ^ 52) :: rat) \<le> of_int (round_half_even (q / ?u))"
    by (simp only: of_int_le_iff)
  then have scaled: "(2 :: rat) ^ 52 * ?u \<le> of_int (round_half_even (q / ?u)) * ?u"
    using upos by simp
  have split: "(2 :: rat) powi ?e = 2 ^ 52 * ?u"
  proof -
    have "(2 :: rat) ^ 52 * ?u = 2 powi 52 * 2 powi (?e - 52)" by simp
    also have "\<dots> = 2 powi (52 + (?e - 52))" by (subst power_int_add) simp_all
    finally show ?thesis by simp
  qed
  have "(2 :: rat) ^ 1024 = 2 powi 1024" by simp
  also have "\<dots> \<le> 2 powi ?e"
    using e by (intro power_int_increasing) simp_all
  also note split
  also note scaled
  finally have "(2 :: rat) ^ 1024 \<le> of_int (round_half_even (q / ?u)) * ?u" .
  then have "round_positive q = PosInf"
    unfolding round_positive_def Let_def mx by simp
  with pos show ?thesis by (simp add: number_value_def)
qed

lemma round_positive_eval:
  assumes "2 powi e \<le> q" and "q < 2 powi (e + 1)" and "- 1022 \<le> e"
    and "of_int f \<le> q / 2 powi (e - 52)" and "q / 2 powi (e - 52) < of_int f + 1"
  shows "round_positive q =
     (let d = q / 2 powi (e - 52) - of_int f;
          m = (if d < 1 / 2 then f else if 1 / 2 < d then f + 1 else if even f then f else f + 1);
          v = of_int m * 2 powi (e - 52)
      in if 2 ^ 1024 \<le> v then PosInf else Fin v)"
proof -
  have "\<lfloor>q / 2 powi (e - 52)\<rfloor> = f"
    using assms(4,5) by (intro floor_unique) simp_all
  then show ?thesis
    unfolding round_positive_def binary_exponent_eq [OF assms(1,2)] round_half_even_def
    using assms(3) by (simp add: Let_def max_def)
qed

text \<open>
  Three roundings: an integer half way between two doubles goes to the even one; a
  decimal with seventeen digits that is nearer to 35 than to its neighbours; a decimal
  beyond the largest double.
\<close>

lemma number_value_tie: "number_value 9007199254740993 = Fin 9007199254740992"
proof -
  have "round_positive 9007199254740993 = Fin 9007199254740992"
    by (subst round_positive_eval [where e = 53 and f = 4503599627370496]) (simp_all add: Let_def)
  then show ?thesis by (simp add: number_value_def)
qed

lemma number_value_digits17: "number_value (35000000000000001 / 10 ^ 15) = Fin 35"
proof -
  have "round_positive (35000000000000001 / 10 ^ 15) = Fin 35"
    by (subst round_positive_eval [where e = 5 and f = 4925812092436480])
      (simp_all add: Let_def power_int_minus field_simps)
  then show ?thesis by (simp add: number_value_def)
qed

lemma number_value_large: "number_value (10 ^ 400) = PosInf"
  by (rule number_value_overflow) simp

lemma round_positive_cases: "round_positive q = PosInf \<or> (\<exists>v. round_positive q = Fin v)"
  by (simp add: round_positive_def Let_def)

lemma number_value_nonneg:
  assumes "0 \<le> q"
  shows "number_value q = PosInf \<or> (\<exists>v. number_value q = Fin v)"
  using assms round_positive_cases [of q] by (simp add: number_value_def)

section \<open>Properties of the ratio merger: the columns\<close>

lemma find_None_iff_set: "(find P xs = None) = (\<not> (\<exists>x \<in> set xs. P x))"
  by (induction xs) auto

lemma find_Some_set: "find P xs = Some x \<Longrightarrow> x \<in> set xs \<and> P x"
  by (induction xs) (auto split: if_splits)

lemma findColumn_single:
  "findColumn headers [kw] = find (\<lambda>h. str_includes (normalizeString (JStr h)) (normalizeString (JStr kw))) headers"
  by (simp add: Let_def split: option.splits)

lemma findIndex_None_iff: "(findIndex P xs = None) = (\<not> (\<exists>x \<in> set xs. P x))"
  by (induction xs) auto

lemma findIndex_Some: "findIndex P xs = Some i \<Longrightarrow> i < length xs \<and> P (xs ! i) \<and> (\<forall>j < i. \<not> P (xs ! j))"
proof (induction xs arbitrary: i)
  case Nil
  then show ?case by simp
next
  case (Cons x xs)
  show ?case
  proof (cases "P x")
    case True
    with Cons.prems show ?thesis by simp
  next
    case False
    with Cons.prems obtain k where k: "findIndex P xs = Some k" "i = Suc k"
      by auto
    from Cons.IH [OF k(1)] False k(2) show ?thesis
      by (auto simp: less_Suc_eq_0_disj)
  qed
qed

lemma str_includes_Nil_left: "str_includes [] pat = (pat = [])"
  by simp

lemma findColumn_TV: "findColumn headers [asc ''TV''] = find is_tv_header headers"
  unfolding findColumn_single norm_TV is_tv_header_def [abs_def] ..

lemma tvColIndex_None_iff:
  "(tvColIndex headers = None) = (\<not> (\<exists>h \<in> set headers. is_tv_header h))"
proof (cases "find is_tv_header headers")
  case None
  then have "tvColIndex headers = None"
    unfolding tvColIndex_def findColumn_TV by (simp add: col_missing_def)
  moreover from None have "\<not> (\<exists>h \<in> set headers. is_tv_header h)"
    by (simp add: find_None_iff_set)
  ultimately show ?thesis by simp
next
  case (Some h)
  then have h: "h \<in> set headers" "is_tv_header h"
    by (auto dest: find_Some_set)
  from h(2) have "h \<noteq> []"
    by (auto simp: is_tv_header_def normalizeString_def asc_def)
  moreover from h(1) have "indexOf headers h \<noteq> None"
    by (auto simp: indexOf_def findIndex_None_iff)
  ultimately show ?thesis
    unfolding tvColIndex_def findColumn_TV
    using Some h by (auto simp: col_missing_def)
qed

lemma prefix_take_iff: "prefix xs ys = (take (length xs) ys = xs)"
proof
  assume "prefix xs ys"
  then show "take (length xs) ys = xs"
    by (auto simp: prefix_def)
next
  assume "take (length xs) ys = xs"
  then show "prefix xs ys"
    by (metis take_is_prefix)
qed

lemma prefix_ti_le_not_alnum: "list_all is_alnum s \<Longrightarrow> \<not> prefix (asc ''ti le'') s"
  by (auto simp: prefix_def asc_def is_alnum_def)

lemma matches_ratio_normalized:
  "matches_ratio (normalizeString (JStr h)) = is_ratio_header h"
proof -
  have "\<not> prefix (asc ''ti le'') (normalizeString (JStr h))"
    by (rule prefix_ti_le_not_alnum) (rule normalizeString_list_all)
  moreover have "prefix (asc ''tile'') s = (take 4 s = asc ''tile'')" for s :: ustring
  proof -
    have "length (asc ''tile'') = 4" by (simp add: asc_def)
    then show ?thesis
      using prefix_take_iff [of "asc ''tile''" s] by simp
  qed
  ultimately show ?thesis
    by (simp add: matches_ratio_def is_ratio_header_def Let_def)
qed

lemma projectRatioColumns_Nil_iff:
  "(projectRatioColumns headers = []) = (\<not> (\<exists>h \<in> set headers. is_ratio_header h))"
proof -
  have "(projectRatioColumns headers = []) =
      (filter (\<lambda>p. matches_ratio (normalizeString (JStr (fst p)))) (zip headers [0..<length headers]) = [])"
    by (simp add: projectRatioColumns_def filter_map comp_def case_prod_beta
        flip: length_0_conv)
  also have "\<dots> = (\<not> (\<exists>p \<in> set (zip headers [0..<length headers]). is_ratio_header (fst p)))"
    by (simp add: filter_empty_conv matches_ratio_normalized)
  also have "\<dots> = (\<not> (\<exists>h \<in> set headers. is_ratio_header h))"
  proof -
    have "fst ` set (zip headers [0..<length headers]) = set headers"
      by (simp flip: set_map)
    then show ?thesis by (metis (no_types, lifting) image_iff)
  qed
  finally show ?thesis .
qed

text \<open>
  C9. The merger throws the error of the missing ratio columns exactly when the
  supplementary grid has a header row and no header of that row is a TV header or a ratio
  header; when one of the two kinds exists the merge returns its records, one per topic.
  (On a grid without any row the read of the header row fails before that test.)
\<close>

theorem mergeMainAndRatios_missing_columns:
  "(mergeMainAndRatios dfMain dfSupp = Inl RatioColumnsMissing) =
     (dfSupp \<noteq> []
      \<and> \<not> (\<exists>h \<in> set (supp_headers dfSupp). is_tv_header h)
      \<and> \<not> (\<exists>h \<in> set (supp_headers dfSupp). is_ratio_header h))
   \<and> (dfSupp \<noteq> []
        \<and> ((\<exists>h \<in> set (supp_headers dfSupp). is_tv_header h)
           \<or> (\<exists>h \<in> set (supp_headers dfSupp). is_ratio_header h))
       \<longrightarrow> (\<exists>records. mergeMainAndRatios dfMain dfSupp = Inr records
              \<and> length records = length dfMain))
   \<and> (dfSupp = [] \<longrightarrow> mergeMainAndRatios dfMain dfSupp = Inl TypeError)"
proof (cases "dfSupp = []")
  case True
  then show ?thesis
    by (simp add: mergeMainAndRatios_def)
next
  case False
  then have row: "\<not> length dfSupp \<le> detectHeaderRow dfSupp [asc ''TV'', kw_ti_le]"
    using detectHeaderRow_lt [of dfSupp] by (simp add: not_le)
  show ?thesis
    using False row
    by (auto simp: mergeMainAndRatios_def Let_def supp_headers_def
        tvColIndex_None_iff projectRatioColumns_Nil_iff)
qed

lemmas locate_eval =
  detectHeaderRow_def detectHeaderRow_from.simps matchCount_def cell_matches_def
  header_texts_def js_or_def trim_def is_ws_def

theorem mergeMainAndRatios_missing_columns_witness:
  "mergeMainAndRatios [] [[JStr (asc ''STT''), JStr (asc ''Ghi chu'')], [JNum (Fin 1), JNull]]
     = Inl RatioColumnsMissing
   \<and> (\<exists>records.
        mergeMainAndRatios
          [\<lparr>ten_de_tai = JStr (asc ''T1''), ho_ten_hv = asc ''A'', so_hoc_vien = 1,
            nguoi_huong_dan = JStr []\<rparr>]
          [[JStr (asc ''TV''), JStr (kw_ti_le @ asc '' 1'')], [JNum (Fin 10), JNum (Fin 3)]]
          = Inr records
        \<and> length records = 1)"
proof -
  let ?bad = "[[JStr (asc ''STT''), JStr (asc ''Ghi chu'')], [JNum (Fin 1), JNull]]"
  let ?good = "[[JStr (asc ''TV''), JStr (kw_ti_le @ asc '' 1'')], [JNum (Fin 10), JNum (Fin 3)]]"
  let ?main = "[\<lparr>ten_de_tai = JStr (asc ''T1''), ho_ten_hv = asc ''A'', so_hoc_vien = 1,
            nguoi_huong_dan = JStr []\<rparr>]"
  have n1: "normalizeString (JStr (asc ''STT'')) = asc ''stt''"
    and n2: "normalizeString (JStr (asc ''Ghi chu'')) = asc ''ghichu''"
    and n3: "normalizeString (JStr (kw_ti_le @ asc '' 1'')) = asc ''tile1''"
    by (simp_all add: normalize_eval kw_ti_le_def nfd_tables)
  have n4: "normalizeString (JNum n) = []" "normalizeString JNull = []" for n
    by (simp_all add: normalizeString_def)
  have bad_headers: "supp_headers ?bad = [asc ''STT'', asc ''Ghi chu'']"
    by (simp add: supp_headers_def locate_eval norm_TV norm_ti_le n1 n2 n4)
      (simp add: asc_def is_ws_def)
  have good_headers: "supp_headers ?good = [asc ''TV'', kw_ti_le @ asc '' 1'']"
    by (simp add: supp_headers_def locate_eval norm_TV norm_ti_le n3 n4)
      (simp add: asc_def kw_ti_le_def is_ws_def)
  have no_tv: "\<not> (\<exists>h \<in> set (supp_headers ?bad). is_tv_header h)"
    by (simp add: bad_headers is_tv_header_def n1 n2) (simp add: asc_def)
  have no_ratio: "\<not> (\<exists>h \<in> set (supp_headers ?bad). is_ratio_header h)"
    by (simp add: bad_headers is_ratio_header_def n1 n2) (simp add: asc_def)
  have some_tv: "\<exists>h \<in> set (supp_headers ?good). is_tv_header h"
    by (simp add: good_headers is_tv_header_def norm_TV) (simp add: asc_def)
  have "mergeMainAndRatios [] ?bad = Inl RatioColumnsMissing"
    using mergeMainAndRatios_missing_columns [of "[]" ?bad] no_tv no_ratio by blast
  moreover have "\<exists>records. mergeMainAndRatios ?main ?good = Inr records \<and> length records = 1"
    using mergeMainAndRatios_missing_columns [of ?main ?good] some_tv by force
  ultimately show ?thesis by blast
qed

section \<open>Properties of the direct-read path\<close>

lemma digits10_head: "digits10 n \<noteq> [] \<and> (0 < n \<longrightarrow> hd (digits10 n) \<noteq> 48)"
proof (induction n rule: digits10.induct)
  case (1 n)
  show ?case
  proof (cases "n < 10")
    case True
    then show ?thesis by (subst digits10.simps, subst digits10.simps) simp
  next
    case False
    then have "0 < n div 10" by simp
    with 1 False have "digits10 (n div 10) \<noteq> []" "hd (digits10 (n div 10)) \<noteq> 48"
      by simp_all
    with False show ?thesis
      by (subst digits10.simps, subst digits10.simps) simp
  qed
qed

lemma digits10_nonempty: "digits10 n \<noteq> []"
  by (simp add: digits10_head)

lemma significant_digits_nonempty:
  assumes "0 < n"
  shows "rev (dropWhile (\<lambda>c. c = 48) (rev (digits10 n))) \<noteq> []"
proof -
  have "hd (digits10 n) \<in> set (rev (digits10 n))"
    using digits10_nonempty [of n] by simp
  moreover have "hd (digits10 n) \<noteq> 48"
    using assms digits10_head [of n] by simp
  ultimately have "\<exists>c \<in> set (rev (digits10 n)). \<not> c = 48"
    by blast
  then have "dropWhile (\<lambda>c. c = 48) (rev (digits10 n)) \<noteq> []"
    by (simp add: dropWhile_eq_Nil_conv)
  then show ?thesis by simp
qed

lemma format_positive_nonempty: "s \<noteq> [] \<Longrightarrow> format_positive s n \<noteq> []"
  by (simp add: format_positive_def Let_def)

lemma positive_toString_nonempty: "positive_toString q \<noteq> []"
proof (cases "shortest_digits q")
  case (Pair N e)
  show ?thesis
  proof (cases "N = 0")
    case True
    with Pair show ?thesis by (simp add: positive_toString_def)
  next
    case False
    then have "format_positive (rev (dropWhile (\<lambda>c. c = 48) (rev (digits10 N))))
        (int (length (digits10 N)) + e) \<noteq> []"
      by (intro format_positive_nonempty significant_digits_nonempty) simp
    with Pair False show ?thesis by (simp add: positive_toString_def Let_def)
  qed
qed

lemma numToString_nonempty: "numToString n \<noteq> []"
  by (cases n) (simp_all add: asc_def positive_toString_nonempty)

lemma to_String_truthy: "truthy v \<Longrightarrow> to_String v \<noteq> []"
  by (cases v) (simp_all add: numToString_nonempty asc_def)

lemma string_field_truthy:
  "(to_String (js_or v (JStr [])) \<noteq> []) = truthy v"
  by (cases "truthy v") (simp_all add: js_or_def to_String_truthy)

lemma string_field_nonempty:
  "nonempty_string (JStr (to_String (js_or v (JStr [])))) = truthy v"
  using string_field_truthy [of v] by (simp add: nonempty_string_def)

lemma read_row_fields:
  "tendetai (read_row hs ti hi si gi tvi row) = JStr (to_String (js_or (cell_at row ti) (JStr [])))"
  "hotenhv (read_row hs ti hi si gi tvi row) = JStr (to_String (js_or (cell_at row hi) (JStr [])))"
  by (simp_all add: read_row_def)

lemma readDataFileForReporting_result:
  assumes "2 \<le> length (readFileAsArray json)"
    and "title_index json \<noteq> None" and "name_index json \<noteq> None"
  shows "readDataFileForReporting json =
     Inr (map (report_row json)
            (filter (\<lambda>row. truthy (cell_at row (the (title_index json)))
                        \<and> truthy (cell_at row (the (name_index json))))
               (drop 1 (readFileAsArray json))))"
proof -
  have keep: "(\<lambda>d. truthy (tendetai d) \<and> truthy (hotenhv d)) \<circ> report_row json =
      (\<lambda>row. truthy (cell_at row (the (title_index json)))
                        \<and> truthy (cell_at row (the (name_index json))))"
    by (rule ext) (simp add: report_row_def read_row_fields string_field_truthy)
  show ?thesis
    using assms keep
    unfolding readDataFileForReporting_def title_index_def name_index_def report_row_def
      report_headers_def Let_def
    by (simp del: findIndex_kw.simps add: filter_map)
qed

text \<open>
  C10. Every record the direct-read path returns has a topic title and a student name that
  are non-empty strings. When the data file has a header row, a data row and the two
  columns, the path returns (it raises nothing) the records of exactly those data rows
  whose topic-title cell and student-name cell are both truthy, in their order; a row in
  which one of the two cells is \<open>null\<close>, missing, empty (or a zero) gives no record.
\<close>

theorem readDataFileForReporting_nonblank:
  "(readDataFileForReporting json = Inr records \<longrightarrow>
      (\<forall>d \<in> set records. nonempty_string (tendetai d) \<and> nonempty_string (hotenhv d)))
   \<and> (2 \<le> length (readFileAsArray json) \<and> title_index json \<noteq> None \<and> name_index json \<noteq> None
       \<longrightarrow> readDataFileForReporting json =
            Inr (map (report_row json)
                   (filter (\<lambda>row. truthy (cell_at row (the (title_index json)))
                               \<and> truthy (cell_at row (the (name_index json))))
                      (drop 1 (readFileAsArray json)))))"
proof (intro conjI impI)
  assume ok: "readDataFileForReporting json = Inr records"
  then have enough: "2 \<le> length (readFileAsArray json)"
    and cols: "title_index json \<noteq> None" "name_index json \<noteq> None"
    unfolding readDataFileForReporting_def title_index_def name_index_def report_headers_def
      Let_def
    by (auto simp del: findIndex_kw.simps split: if_splits)
  from readDataFileForReporting_result [OF enough cols] ok
  have "records = map (report_row json)
            (filter (\<lambda>row. truthy (cell_at row (the (title_index json)))
                        \<and> truthy (cell_at row (the (name_index json))))
               (drop 1 (readFileAsArray json)))"
    by simp
  then show "\<forall>d \<in> set records. nonempty_string (tendetai d) \<and> nonempty_string (hotenhv d)"
    by (auto simp: report_row_def read_row_fields string_field_nonempty)
next
  assume "2 \<le> length (readFileAsArray json) \<and> title_index json \<noteq> None \<and> name_index json \<noteq> None"
  then show "readDataFileForReporting json =
            Inr (map (report_row json)
                   (filter (\<lambda>row. truthy (cell_at row (the (title_index json)))
                               \<and> truthy (cell_at row (the (name_index json))))
                      (drop 1 (readFileAsArray json))))"
    using readDataFileForReporting_result by blast
qed

theorem readDataFileForReporting_nonblank_witness:
  "readDataFileForReporting
     [[JStr kw_ten_de_tai, JStr kw_ho_ten_hv],
      [JStr (asc ''T1''), JStr (asc ''A'')],
      [JNull, JStr (asc ''B'')],
      [JNull, JNull],
      [JStr (asc ''T2''), JStr []]]
   = Inr [\<lparr>hotenhv = JStr (asc ''A''), tendetai = JStr (asc ''T1''), sohocvien = Fin 1,
           nguoihuongdan = JStr [], tv = None, chapters = []\<rparr>]"
proof -
  let ?json = "[[JStr kw_ten_de_tai, JStr kw_ho_ten_hv],
      [JStr (asc ''T1''), JStr (asc ''A'')],
      [JNull, JStr (asc ''B'')],
      [JNull, JNull],
      [JStr (asc ''T2''), JStr []]]"
  have nonblank: "trim kw_ten_de_tai \<noteq> []" "trim (asc ''T1'') \<noteq> []" "trim (asc ''B'') \<noteq> []"
      "trim (asc ''T2'') \<noteq> []"
    by (simp_all add: trim_def is_ws_def kw_ten_de_tai_def asc_def)
  have array: "readFileAsArray ?json =
      [[JStr kw_ten_de_tai, JStr kw_ho_ten_hv],
       [JStr (asc ''T1''), JStr (asc ''A'')],
       [JNull, JStr (asc ''B'')],
       [JStr (asc ''T2''), JStr []]]"
    by (simp add: readFileAsArray_def nonblank)
  have headers: "report_headers ?json = [asc ''tendetai'', asc ''hotenhv'']"
    by (simp add: report_headers_def array norm_keywords)
  have title: "title_index ?json = Some 0"
    by (simp add: title_index_def headers norm_keywords Let_def) (simp add: asc_def)
  have name: "name_index ?json = Some 1"
    by (simp add: name_index_def headers norm_keywords Let_def) (simp add: asc_def)
  have others: "findIndex_kw [asc ''tendetai'', asc ''hotenhv''] [kw_so_hoc_vien, asc ''sohocvien''] = None"
      "findIndex_kw [asc ''tendetai'', asc ''hotenhv''] [kw_nguoi_huong_dan, asc ''nguoihuongdan''] = None"
      "findIndex_kw [asc ''tendetai'', asc ''hotenhv''] [asc ''TV''] = None"
    by (simp_all add: norm_keywords Let_def) (simp_all add: asc_def)
  have row: "report_row ?json [JStr (asc ''T1''), JStr (asc ''A'')] =
      \<lparr>hotenhv = JStr (asc ''A''), tendetai = JStr (asc ''T1''), sohocvien = Fin 1,
        nguoihuongdan = JStr [], tv = None, chapters = []\<rparr>"
    unfolding report_row_def headers title name others
    by (simp add: read_row_def cell_at_def js_or_def read_chapter_step_def matches_chapter_def
        is_digit_def asc_def)
  have kept: "filter (\<lambda>row. truthy (cell_at row (the (title_index ?json)))
                               \<and> truthy (cell_at row (the (name_index ?json))))
                      (drop 1 (readFileAsArray ?json)) = [[JStr (asc ''T1''), JStr (asc ''A'')]]"
    unfolding array title name by (simp add: cell_at_def) (simp add: asc_def)
  have "2 \<le> length (readFileAsArray ?json)"
    by (simp add: array)
  with title name
  have "readDataFileForReporting ?json =
      Inr (map (report_row ?json)
             (filter (\<lambda>row. truthy (cell_at row (the (title_index ?json)))
                               \<and> truthy (cell_at row (the (name_index ?json))))
                      (drop 1 (readFileAsArray ?json))))"
    using readDataFileForReporting_nonblank [of ?json "[]"] by simp
  then show ?thesis
    unfolding kept using row by simp
qed

section \<open>Properties of the ratio merger: the records\<close>

subsection \<open>The TV column\<close>

lemma find_findIndex_None: "(find P xs = None) = (findIndex P xs = None)"
  by (simp add: find_None_iff_set findIndex_None_iff)

lemma findIndex_of_found:
  "find P xs = Some h \<Longrightarrow> findIndex (\<lambda>y. y = h) xs = findIndex P xs"
proof (induction xs)
  case Nil
  then show ?case by simp
next
  case (Cons x xs)
  show ?case
  proof (cases "P x")
    case True
    with Cons.prems show ?thesis by simp
  next
    case False
    with Cons.prems have found: "find P xs = Some h" by simp
    then have "P h" by (auto dest: find_Some_set)
    with False have "x \<noteq> h" by auto
    with False Cons.IH [OF found] show ?thesis by simp
  qed
qed

lemma tvColIndex_first: "tvColIndex headers = tv_column headers"
proof (cases "find is_tv_header headers")
  case None
  then have "findIndex is_tv_header headers = None"
    by (simp add: find_findIndex_None)
  with None show ?thesis
    unfolding tvColIndex_def findColumn_TV tv_column_def
    by (simp add: col_missing_def)
next
  case (Some h)
  then have "is_tv_header h" by (auto dest: find_Some_set)
  then have "h \<noteq> []"
    by (auto simp: is_tv_header_def normalizeString_def asc_def)
  with Some findIndex_of_found [OF Some] show ?thesis
    unfolding tvColIndex_def findColumn_TV tv_column_def
    by (simp add: col_missing_def indexOf_def)
qed

subsection \<open>The ratio columns\<close>

lemma zip_indices: "zip xs [0..<length xs] = map (\<lambda>k. (xs ! k, k)) [0..<length xs]"
  by (rule nth_equalityI) simp_all

lemma insort_key_map:
  "insort_key f (g x) (map g ys) = map g (insort_key (\<lambda>y. f (g y)) x ys)"
  by (induction ys) simp_all

lemma sort_key_map: "sort_key f (map g xs) = map g (sort_key (\<lambda>y. f (g y)) xs)"
  by (induction xs) (simp_all add: insort_key_map)

lemma insort_key_same_order:
  "(\<And>y. y \<in> set ys \<Longrightarrow> (f x \<le> f y) = (g x \<le> g y))
   \<Longrightarrow> insort_key f x ys = insort_key g x ys"
  by (induction ys) simp_all

lemma sort_key_same_order:
  "(\<And>x y. x \<in> set xs \<Longrightarrow> y \<in> set xs \<Longrightarrow> (f x \<le> f y) = (g x \<le> g y))
   \<Longrightarrow> sort_key f xs = sort_key g xs"
proof (induction xs)
  case Nil
  then show ?case by simp
next
  case (Cons x xs)
  have "sort_key f xs = sort_key g xs"
    using Cons.prems by (intro Cons.IH) simp_all
  moreover have "insort_key f x (sort_key g xs) = insort_key g x (sort_key g xs)"
    using Cons.prems by (intro insort_key_same_order) simp_all
  ultimately show ?case by simp
qed

lemma digit_not_ws: "is_digit c \<Longrightarrow> \<not> is_ws c"
  by (auto simp: is_digit_def is_ws_def)

lemma parseInt_digits:
  assumes "ds \<noteq> []" and "list_all is_digit ds"
  shows "parseInt ds = number_value (of_nat (digits_val ds))"
proof -
  obtain d rest where ds: "ds = d # rest"
    using assms(1) by (cases ds) auto
  with assms(2) have d: "is_digit d" by simp
  then have "dropWhile is_ws ds = ds"
    using ds by (simp add: digit_not_ws)
  moreover from d have "d \<noteq> 45" "d \<noteq> 43"
    by (auto simp: is_digit_def)
  moreover have "takeWhile is_digit ds = ds"
    using assms(2) by (simp add: list_all_iff)
  ultimately show ?thesis
    using ds by (simp add: parseInt_def Let_def)
qed

lemma ratio_number_trailing:
  assumes "is_ratio_header h"
  shows "ratio_number \<lparr>rc_header = h, rc_index = k, rc_norm = normalizeString (JStr h)\<rparr>
     = trailing_number h"
proof -
  let ?n = "normalizeString (JStr h)"
  from assms have tile: "take 4 ?n = asc ''tile''" and rest: "drop 4 ?n \<noteq> []"
    and digits: "list_all is_digit (drop 4 ?n)"
    by (simp_all add: is_ratio_header_def Let_def)
  have "length (asc ''tile'') = 4" by (simp add: asc_def)
  with tile have "prefix (asc ''tile'') ?n"
    using prefix_take_iff [of "asc ''tile''" ?n] by simp
  then have "strip_ratio ?n = drop 4 ?n"
    by (simp add: strip_ratio_def)
  with parseInt_digits [OF rest digits]
  have "parseInt (strip_ratio ?n) = number_value (of_nat (trailing_integer h))"
    by (simp add: trailing_integer_def)
  moreover have "number_value (of_nat (trailing_integer h)) = PosInf
      \<or> (\<exists>v. number_value (of_nat (trailing_integer h)) = Fin v)"
    by (rule number_value_nonneg) simp
  ultimately show ?thesis
    by (auto simp: ratio_number_def trailing_number_def)
qed

lemma trailing_number_exact:
  assumes "trailing_integer h \<le> 2 ^ 53"
  shows "trailing_number h = of_nat (trailing_integer h)"
  using number_value_nat [OF assms] by (simp add: trailing_number_def)

lemma ratio_columns_exact:
  assumes "\<forall>h \<in> set headers. is_ratio_header h \<longrightarrow> trailing_integer h \<le> 2 ^ 53"
  shows "ratio_columns headers =
     sort_key (\<lambda>k. trailing_integer (headers ! k))
       (filter (\<lambda>k. is_ratio_header (headers ! k)) [0..<length headers])"
  unfolding ratio_columns_def
proof (rule sort_key_same_order)
  fix x y
  assume "x \<in> set (filter (\<lambda>k. is_ratio_header (headers ! k)) [0..<length headers])"
    and "y \<in> set (filter (\<lambda>k. is_ratio_header (headers ! k)) [0..<length headers])"
  then have "trailing_integer (headers ! x) \<le> 2 ^ 53" "trailing_integer (headers ! y) \<le> 2 ^ 53"
    using assms by auto
  then show "(trailing_number (headers ! x) \<le> trailing_number (headers ! y))
      = (trailing_integer (headers ! x) \<le> trailing_integer (headers ! y))"
    by (simp add: trailing_number_exact)
qed

lemma projectRatioColumns_indices:
  "map rc_index (projectRatioColumns headers) = ratio_columns headers"
proof -
  let ?mk = "\<lambda>k. \<lparr>rc_header = headers ! k, rc_index = k,
                   rc_norm = normalizeString (JStr (headers ! k))\<rparr>"
  let ?ks = "filter (\<lambda>k. is_ratio_header (headers ! k)) [0..<length headers]"
  have cols: "map (\<lambda>(header, index).
                  \<lparr>rc_header = header, rc_index = index, rc_norm = normalizeString (JStr header)\<rparr>)
             (zip headers [0..<length headers]) = map ?mk [0..<length headers]"
    by (simp add: zip_indices)
  have kept: "filter (\<lambda>c. matches_ratio (rc_norm c)) (map ?mk [0..<length headers]) = map ?mk ?ks"
    by (simp add: filter_map comp_def matches_ratio_normalized)
  have "sort_key ratio_number (map ?mk ?ks) = map ?mk (sort_key (\<lambda>k. ratio_number (?mk k)) ?ks)"
    by (rule sort_key_map)
  also have "sort_key (\<lambda>k. ratio_number (?mk k)) ?ks
      = sort_key (\<lambda>k. trailing_number (headers ! k)) ?ks"
    by (rule sort_key_same_order) (simp add: ratio_number_trailing)
  finally have "projectRatioColumns headers = map ?mk (ratio_columns headers)"
    unfolding projectRatioColumns_def cols kept ratio_columns_def .
  then show ?thesis
    by (simp add: comp_def)
qed

subsection \<open>Blank cells and printed numbers\<close>

lemma trim_Nil_iff: "(trim s = []) = (\<forall>c \<in> set s. is_ws c)"
proof
  assume "trim s = []"
  then have all: "\<forall>c \<in> set (dropWhile is_ws s). is_ws c"
    by (simp add: trim_def dropWhile_eq_Nil_conv)
  have "dropWhile is_ws s = []"
  proof (rule ccontr)
    assume nonempty: "dropWhile is_ws s \<noteq> []"
    then have "\<not> is_ws (hd (dropWhile is_ws s))"
      by (rule hd_dropWhile)
    moreover from nonempty have "hd (dropWhile is_ws s) \<in> set (dropWhile is_ws s)"
      by simp
    ultimately show False using all by blast
  qed
  then show "\<forall>c \<in> set s. is_ws c"
    by (simp add: dropWhile_eq_Nil_conv)
next
  assume "\<forall>c \<in> set s. is_ws c"
  then show "trim s = []"
    by (auto simp: trim_def dest: set_dropWhileD)
qed

lemma replace_first_absent: "a \<notin> set s \<Longrightarrow> replace_first a b s = s"
  by (induction s) auto

lemma blank_parseFloat:
  assumes "trim s = []"
  shows "parseFloat (replace_first 44 46 s) = NaN"
proof -
  from assms have ws: "\<forall>c \<in> set s. is_ws c"
    by (simp add: trim_Nil_iff)
  have "\<not> is_ws 44" by (simp add: is_ws_def)
  with ws have "44 \<notin> set s" by blast
  then have same: "replace_first 44 46 s = s"
    by (rule replace_first_absent)
  from ws have all_skipped: "dropWhile is_ws s = []"
    by simp
  show ?thesis
    unfolding parseFloat_def same by (subst all_skipped) simp
qed

lemma digits10_digits: "c \<in> set (digits10 n) \<Longrightarrow> is_digit c"
proof (induction n rule: digits10.induct)
  case (1 n)
  show ?case
  proof (cases "n < 10")
    case True
    with "1.prems" show ?thesis
      by (subst (asm) digits10.simps) (simp add: is_digit_def)
  next
    case False
    with "1.prems" have "c \<in> set (digits10 (n div 10)) \<or> c = 48 + n mod 10"
      by (subst (asm) digits10.simps) auto
    moreover have "n mod 10 < 10" by simp
    ultimately show ?thesis
      using "1.IH" False by (auto simp: is_digit_def)
  qed
qed

lemma format_positive_chars:
  assumes "s \<noteq> []" and "c \<in> set (format_positive s n)"
  shows "c \<in> set s \<or> is_digit c \<or> c \<in> {43, 45, 46, 101}"
proof -
  have "hd s \<in> set s" using assms(1) by simp
  moreover have "set (tl s) \<subseteq> set s" using assms(1) by (cases s) auto
  moreover have "is_digit 48" by (simp add: is_digit_def)
  ultimately show ?thesis
    using assms(2)
    by (auto simp: format_positive_def Let_def split: if_splits
        dest: digits10_digits in_set_takeD in_set_dropD)
qed

lemma positive_toString_chars:
  assumes "c \<in> set (positive_toString q)"
  shows "is_digit c \<or> c \<in> {43, 45, 46, 101}"
proof (cases "shortest_digits q")
  case (Pair N e)
  show ?thesis
  proof (cases "N = 0")
    case True
    with Pair assms show ?thesis
      by (simp add: positive_toString_def is_digit_def)
  next
    case False
    let ?s = "rev (dropWhile (\<lambda>c. c = 48) (rev (digits10 N)))"
    have nonempty: "?s \<noteq> []"
      using False by (intro significant_digits_nonempty) simp
    from Pair False assms have "c \<in> set (format_positive ?s (int (length (digits10 N)) + e))"
      by (simp add: positive_toString_def Let_def)
    from format_positive_chars [OF nonempty this]
    have "c \<in> set ?s \<or> is_digit c \<or> c \<in> {43, 45, 46, 101}" .
    moreover have "set ?s \<subseteq> set (digits10 N)"
      by (auto dest: set_dropWhileD)
    ultimately show ?thesis
      by (auto dest: digits10_digits)
  qed
qed

lemma numToString_chars: "c \<in> set (numToString n) \<Longrightarrow> \<not> is_ws c"
proof (cases n)
  case (Fin q)
  assume "c \<in> set (numToString n)"
  with Fin have "c = 48 \<or> c = 45 \<or> c \<in> set (positive_toString (- q)) \<or> c \<in> set (positive_toString q)"
    by (auto split: if_splits)
  then have "is_digit c \<or> c \<in> {43, 45, 46, 101}"
    by (auto dest: positive_toString_chars simp: is_digit_def)
  then show ?thesis
    by (auto simp: is_digit_def is_ws_def)
qed (auto simp: asc_def is_ws_def)

lemma numToString_not_blank: "trim (numToString n) \<noteq> []"
proof -
  obtain c where "c \<in> set (numToString n)"
    using numToString_nonempty [of n] by (cases "numToString n") auto
  then show ?thesis
    by (auto simp: trim_Nil_iff dest: numToString_chars)
qed

subsection \<open>The value of a cell\<close>

lemma tv_cell_parsed:
  "(if tvVal \<noteq> JNull \<and> tvVal \<noteq> JUndefined then
      (case cell_number tvVal of
         Some numVal \<Rightarrow> if \<not> isNaN numVal then Some numVal else None
       | None \<Rightarrow> None)
    else None) = parsed_number tvVal"
  by (cases tvVal)
    (auto simp: cell_number_def parsed_number_def isNaN_def split: jsnum.splits)

lemma chapter_step_parsed:
  "chapter_step col acc (row, j) =
     (case parsed_number (cell_at row col) of
        Some n \<Rightarrow> AList.update (chapter_key j) n acc
      | None \<Rightarrow> acc)"
proof (cases "cell_at row col")
  case (JStr s)
  show ?thesis
  proof (cases "trim s = []")
    case True
    with JStr blank_parseFloat [OF True] show ?thesis
      by (simp add: chapter_step_def parsed_number_def)
  next
    case False
    with JStr show ?thesis
      by (auto simp: chapter_step_def parsed_number_def cell_number_def isNaN_def chapter_key_def
          split: jsnum.splits)
  qed
next
  case (JNum n)
  then show ?thesis
    by (auto simp: chapter_step_def parsed_number_def cell_number_def isNaN_def chapter_key_def
        numToString_not_blank split: jsnum.splits)
qed (simp_all add: chapter_step_def parsed_number_def cell_number_def)

subsection \<open>The chapter fields\<close>

lemma digits_val_snoc: "digits_val (ds @ [d]) = 10 * digits_val ds + (d - 48)"
  by (simp add: digits_val_def)

lemma digits_val_digits10: "digits_val (digits10 n) = n"
proof (induction n rule: digits10.induct)
  case (1 n)
  show ?case
  proof (cases "n < 10")
    case True
    then show ?thesis
      by (subst digits10.simps) (simp add: digits_val_def)
  next
    case False
    with 1 have "digits_val (digits10 (n div 10)) = n div 10" by simp
    with False show ?thesis
      by (subst digits10.simps) (simp add: digits_val_snoc)
  qed
qed

lemma chapter_key_inj: "(chapter_key i = chapter_key j) = (i = j)"
proof
  assume "chapter_key i = chapter_key j"
  then have "digits_val (digits10 (i + 1)) = digits_val (digits10 (j + 1))"
    by (simp add: chapter_key_def)
  then show "i = j" by (simp add: digits_val_digits10)
qed simp

lemma update_fresh: "k \<notin> fst ` set al \<Longrightarrow> AList.update k v al = al @ [(k, v)]"
  by (induction al) auto

lemma chapters_fold:
  "m \<le> length rows \<Longrightarrow>
   foldl (chapter_step col) [] (zip (take m rows) [0..<m]) =
     map (\<lambda>j. (chapter_key j, the (parsed_number (cell_at (rows ! j) col))))
       (filter (\<lambda>j. parsed_number (cell_at (rows ! j) col) \<noteq> None) [0..<m])"
proof (induction m)
  case 0
  then show ?case by simp
next
  case (Suc m)
  then have m: "m < length rows" by simp
  let ?done = "map (\<lambda>j. (chapter_key j, the (parsed_number (cell_at (rows ! j) col))))
       (filter (\<lambda>j. parsed_number (cell_at (rows ! j) col) \<noteq> None) [0..<m])"
  have zip: "zip (take (Suc m) rows) [0..<Suc m] = zip (take m rows) [0..<m] @ [(rows ! m, m)]"
    using m by (simp add: take_Suc_conv_app_nth)
  have fresh: "chapter_key m \<notin> fst ` set ?done"
    by (auto simp: chapter_key_inj)
  from Suc.IH m have ih: "foldl (chapter_step col) [] (zip (take m rows) [0..<m]) = ?done"
    by simp
  have "foldl (chapter_step col) [] (zip (take (Suc m) rows) [0..<Suc m])
      = chapter_step col ?done (rows ! m, m)"
    unfolding zip foldl_append ih by simp
  also have "\<dots> = (case parsed_number (cell_at (rows ! m) col) of
        Some n \<Rightarrow> ?done @ [(chapter_key m, n)] | None \<Rightarrow> ?done)"
    unfolding chapter_step_parsed using update_fresh [OF fresh]
    by (cases "parsed_number (cell_at (rows ! m) col)") simp_all
  also have "\<dots> = map (\<lambda>j. (chapter_key j, the (parsed_number (cell_at (rows ! j) col))))
       (filter (\<lambda>j. parsed_number (cell_at (rows ! j) col) \<noteq> None) [0..<Suc m])"
    by (simp split: option.splits)
  finally show ?case .
qed

lemma chapter_values_parsed:
  "chapter_values rows cols i =
     (if i < length cols then
        map (\<lambda>j. (chapter_key j, the (parsed_number (cell_at (rows ! j) (rc_index (cols ! i))))))
          (filter (\<lambda>j. parsed_number (cell_at (rows ! j) (rc_index (cols ! i))) \<noteq> None)
             [0..<length rows])
      else [])"
  using chapters_fold [of "length rows" rows] by (simp add: chapter_values_def)

subsection \<open>The records\<close>

lemma parsed_number_not_NaN: "parsed_number v \<noteq> Some NaN"
  by (cases v) (auto simp: parsed_number_def split: jsnum.splits)

lemma tv_value_parsed:
  "tv_value rows tvCol i =
     (case tvCol of
        Some t \<Rightarrow> if i < length rows then parsed_number (cell_at (rows ! i) t) else None
      | None \<Rightarrow> None)"
  unfolding tv_value_def Let_def tv_cell_parsed by (cases tvCol) simp_all

lemma merged_rows:
  assumes "mergeMainAndRatios dfMain dfSupp = Inr records"
  shows "records =
     map (\<lambda>(mainRow, projectIndex).
            \<lparr>hotenhv = JStr (ho_ten_hv mainRow),
             tendetai = ten_de_tai mainRow,
             sohocvien = Fin (of_nat (so_hoc_vien mainRow)),
             nguoihuongdan = nguoi_huong_dan mainRow,
             tv = tv_value (supp_rows dfSupp) (tvColIndex (supp_headers dfSupp)) projectIndex,
             chapters = chapter_values (supp_rows dfSupp)
                          (projectRatioColumns (supp_headers dfSupp)) projectIndex\<rparr>)
       (zip dfMain [0..<length dfMain])"
  using assms
  unfolding mergeMainAndRatios_def supp_rows_def supp_headers_def Let_def
  by (simp split: if_splits)

text \<open>
  C2, with "a finite number" read as "a number other than NaN". When the merger returns
  its records, there is one record per topic, in the order of the topics, with the name,
  title, count and advisor of its topic. The \<open>tv\<close> of record \<open>i\<close> is set exactly when a TV
  column is resolved, data row \<open>i\<close> exists and its TV cell holds a number (a string
  parsed with comma or point to the nearest double, or a number; NaN excluded, the
  infinities included, also the one a decimal beyond the largest double is read as); it
  is then that number. The chapter fields of record \<open>i\<close> come from the \<open>i\<close>-th ratio column
  in the order of the trailing integers as they are read, that is as doubles: the key of
  row \<open>j\<close> is "c" followed by \<open>j + 1\<close>, present exactly for the rows whose cell in that
  column holds a number. A record beyond the data rows has no \<open>tv\<close>, one beyond the ratio
  columns has no chapter field. When no trailing integer is above \<open>2 ^ 53\<close>, the order of
  the ratio columns is that of the integers themselves.
\<close>

theorem mergeMainAndRatios_records:
  assumes "mergeMainAndRatios dfMain dfSupp = Inr records"
  shows "length records = length dfMain
    \<and> (\<forall>i < length dfMain.
         hotenhv (records ! i) = JStr (ho_ten_hv (dfMain ! i))
         \<and> tendetai (records ! i) = ten_de_tai (dfMain ! i)
         \<and> sohocvien (records ! i) = Fin (of_nat (so_hoc_vien (dfMain ! i)))
         \<and> nguoihuongdan (records ! i) = nguoi_huong_dan (dfMain ! i)
         \<and> tv (records ! i) =
             (case tv_column (supp_headers dfSupp) of
                Some t \<Rightarrow>
                  if i < length (supp_rows dfSupp)
                  then parsed_number (cell_at (supp_rows dfSupp ! i) t)
                  else None
              | None \<Rightarrow> None)
         \<and> tv (records ! i) \<noteq> Some NaN
         \<and> chapters (records ! i) =
             (if i < length (ratio_columns (supp_headers dfSupp)) then
                map (\<lambda>j. (chapter_key j,
                           the (parsed_number (cell_at (supp_rows dfSupp ! j)
                                  (ratio_columns (supp_headers dfSupp) ! i)))))
                  (filter (\<lambda>j. parsed_number (cell_at (supp_rows dfSupp ! j)
                                  (ratio_columns (supp_headers dfSupp) ! i)) \<noteq> None)
                     [0..<length (supp_rows dfSupp)])
              else []))
    \<and> ((\<forall>h \<in> set (supp_headers dfSupp). is_ratio_header h \<longrightarrow> trailing_integer h \<le> 2 ^ 53) \<longrightarrow>
         ratio_columns (supp_headers dfSupp) =
           sort_key (\<lambda>k. trailing_integer (supp_headers dfSupp ! k))
             (filter (\<lambda>k. is_ratio_header (supp_headers dfSupp ! k))
                [0..<length (supp_headers dfSupp)]))"
proof (intro conjI allI impI)
  note rows = merged_rows [OF assms]
  show len: "length records = length dfMain"
    by (simp add: rows)
  fix i
  assume i: "i < length dfMain"
  let ?cols = "projectRatioColumns (supp_headers dfSupp)"
  have cols: "map rc_index ?cols = ratio_columns (supp_headers dfSupp)"
    by (rule projectRatioColumns_indices)
  then have n_cols: "length ?cols = length (ratio_columns (supp_headers dfSupp))"
    by (metis length_map)
  have col: "rc_index (?cols ! i) = ratio_columns (supp_headers dfSupp) ! i"
    if "i < length (ratio_columns (supp_headers dfSupp))"
    using that cols n_cols by (metis nth_map)
  from i show "hotenhv (records ! i) = JStr (ho_ten_hv (dfMain ! i))"
    and "tendetai (records ! i) = ten_de_tai (dfMain ! i)"
    and "sohocvien (records ! i) = Fin (of_nat (so_hoc_vien (dfMain ! i)))"
    and "nguoihuongdan (records ! i) = nguoi_huong_dan (dfMain ! i)"
    by (simp_all add: rows)
  from i show tv_i: "tv (records ! i) =
             (case tv_column (supp_headers dfSupp) of
                Some t \<Rightarrow>
                  if i < length (supp_rows dfSupp)
                  then parsed_number (cell_at (supp_rows dfSupp ! i) t)
                  else None
              | None \<Rightarrow> None)"
    by (simp add: rows tv_value_parsed tvColIndex_first)
  show "tv (records ! i) \<noteq> Some NaN"
    unfolding tv_i by (simp add: parsed_number_not_NaN split: option.splits)
  from i show "chapters (records ! i) =
             (if i < length (ratio_columns (supp_headers dfSupp)) then
                map (\<lambda>j. (chapter_key j,
                           the (parsed_number (cell_at (supp_rows dfSupp ! j)
                                  (ratio_columns (supp_headers dfSupp) ! i)))))
                  (filter (\<lambda>j. parsed_number (cell_at (supp_rows dfSupp ! j)
                                  (ratio_columns (supp_headers dfSupp) ! i)) \<noteq> None)
                     [0..<length (supp_rows dfSupp)])
              else [])"
    by (simp add: rows chapter_values_parsed n_cols col)
next
  assume "\<forall>h \<in> set (supp_headers dfSupp). is_ratio_header h \<longrightarrow> trailing_integer h \<le> 2 ^ 53"
  then show "ratio_columns (supp_headers dfSupp) =
           sort_key (\<lambda>k. trailing_integer (supp_headers dfSupp ! k))
             (filter (\<lambda>k. is_ratio_header (supp_headers dfSupp ! k))
                [0..<length (supp_headers dfSupp)])"
    by (rule ratio_columns_exact)
qed

subsection \<open>The examples\<close>

lemma number_value_examples:
  "number_value 1 = Fin 1" "number_value 2 = Fin 2" "number_value 3 = Fin 3"
  "number_value 4 = Fin 4" "number_value 10 = Fin 10"
  "number_value (3 / 2) = Fin (3 / 2)" "number_value (57 / 2) = Fin (57 / 2)"
  using number_value_dyadic [of 1 0] number_value_dyadic [of 2 0] number_value_dyadic [of 3 0]
    number_value_dyadic [of 4 0] number_value_dyadic [of 10 0] number_value_dyadic [of 3 "- 1"]
    number_value_dyadic [of 57 "- 1"]
  by simp_all

lemmas parse_eval =
  parseFloat_def unsigned_literal_def exponent_part_def scale10_def digits_val_def is_digit_def
  is_ws_def Let_def number_value_examples

lemma parse_rounded:
  "parseFloat (replace_first 44 46 (asc ''35,000000000000001'')) = Fin 35"
  "parseFloat (replace_first 44 46 (asc ''1e400'')) = PosInf"
  "parseInt (asc ''9007199254740993'') = Fin 9007199254740992"
proof -
  have "number_value (35000000000000001 / 1000000000000000) = Fin 35"
    using number_value_digits17 by simp
  then show "parseFloat (replace_first 44 46 (asc ''35,000000000000001'')) = Fin 35"
    by (simp add: parseFloat_def unsigned_literal_def exponent_part_def scale10_def digits_val_def
        is_digit_def is_ws_def Let_def asc_def)
  show "parseFloat (replace_first 44 46 (asc ''1e400'')) = PosInf"
    by (simp add: parseFloat_def unsigned_literal_def exponent_part_def scale10_def digits_val_def
        is_digit_def is_ws_def Let_def asc_def number_value_overflow)
  show "parseInt (asc ''9007199254740993'') = Fin 9007199254740992"
    by (simp add: parseInt_def digits_val_def is_digit_def is_ws_def Let_def asc_def
        number_value_tie)
qed

lemma norm_ti_le_1: "normalizeString (JStr (kw_ti_le @ asc '' 1'')) = asc ''tile1''"
  and norm_ti_le_2: "normalizeString (JStr (kw_ti_le @ asc '' 2'')) = asc ''tile2''"
  by (simp_all add: normalize_eval kw_ti_le_def nfd_tables)

lemma normalize_not_string:
  "normalizeString (JNum n) = []" "normalizeString JNull = []" "normalizeString (JStr []) = []"
  by (simp_all add: normalizeString_def)

lemma detectHeaderRow_row0:
  "data \<noteq> [] \<Longrightarrow> 2 \<le> matchCount kws (data ! 0) \<Longrightarrow> detectHeaderRow data kws = 0"
  unfolding detectHeaderRow_def by (rule detectHeaderRow_from_first) auto

lemma detectHeaderRow_default:
  "(\<And>j. j < length data \<Longrightarrow> matchCount kws (data ! j) < 2) \<Longrightarrow> detectHeaderRow data kws = 0"
  unfolding detectHeaderRow_def by (rule detectHeaderRow_from_none) auto

lemma example_supp_header: "detectHeaderRow example_supp [asc ''TV'', kw_ti_le] = 0"
proof (rule detectHeaderRow_row0)
  show "example_supp \<noteq> []"
    by (simp add: example_supp_def)
  have "matchCount [asc ''TV'', kw_ti_le] (example_supp ! 0) = 3"
    by (simp add: example_supp_def matchCount_def cell_matches_def norm_TV norm_ti_le
        norm_ti_le_1 norm_ti_le_2 Let_def)
      (simp add: asc_def)
  then show "2 \<le> matchCount [asc ''TV'', kw_ti_le] (example_supp ! 0)"
    by simp
qed

lemma example_supp_headers:
  "supp_headers example_supp = [asc ''TV'', kw_ti_le @ asc '' 1'', kw_ti_le @ asc '' 2'']"
  unfolding supp_headers_def example_supp_header
  by (simp add: example_supp_def header_texts_def js_or_def trim_def is_ws_def asc_def kw_ti_le_def)

lemma example_supp_rows:
  "supp_rows example_supp =
     [[JNum (Fin 10), JStr (asc ''1,5''), JNum (Fin 3)],
      [JStr (asc ''28,5''), JStr (asc ''2''), JStr (asc ''x'')],
      [JStr [], JStr [], JNum (Fin 4)]]"
  unfolding supp_rows_def example_supp_header by (simp add: example_supp_def)

lemma example_tv_column: "tv_column (supp_headers example_supp) = Some 0"
  unfolding example_supp_headers
  by (simp add: tv_column_def is_tv_header_def norm_TV) (simp add: asc_def)

lemma example_ratio_columns: "ratio_columns (supp_headers example_supp) = [1, 2]"
proof -
  have tv: "\<not> is_ratio_header (asc ''TV'')"
    by (simp add: is_ratio_header_def norm_TV) (simp add: asc_def)
  have r1: "is_ratio_header (kw_ti_le @ asc '' 1'')" and r2: "is_ratio_header (kw_ti_le @ asc '' 2'')"
    by (simp_all add: is_ratio_header_def norm_ti_le_1 norm_ti_le_2)
      (simp_all add: asc_def is_digit_def)
  have t1: "trailing_number (kw_ti_le @ asc '' 1'') = 1"
    and t2: "trailing_number (kw_ti_le @ asc '' 2'') = 2"
    by (simp_all add: trailing_number_def trailing_integer_def norm_ti_le_1 norm_ti_le_2)
      (simp_all add: asc_def digits_val_def number_value_examples)
  have "[0..<3] = [0, 1, 2]"
    by (simp add: upt_rec)
  then show ?thesis
    unfolding example_supp_headers ratio_columns_def
    by (simp add: tv r1 r2 t1 t2)
qed

text \<open>
  Two ratio columns whose trailing integers are read as the same double keep the order
  of the headers, whatever the integers.
\<close>

lemma ratio_columns_rounded:
  "ratio_columns
     [asc ''TV'', kw_ti_le @ asc '' 9007199254740993'', kw_ti_le @ asc '' 9007199254740992'']
   = [1, 2]"
proof -
  have n1: "normalizeString (JStr (kw_ti_le @ asc '' 9007199254740993'')) = asc ''tile9007199254740993''"
    and n2: "normalizeString (JStr (kw_ti_le @ asc '' 9007199254740992'')) = asc ''tile9007199254740992''"
    by (simp_all add: normalize_eval kw_ti_le_def nfd_tables)
  have tv: "\<not> is_ratio_header (asc ''TV'')"
    by (simp add: is_ratio_header_def norm_TV) (simp add: asc_def)
  have r1: "is_ratio_header (kw_ti_le @ asc '' 9007199254740993'')"
    and r2: "is_ratio_header (kw_ti_le @ asc '' 9007199254740992'')"
    by (simp_all add: is_ratio_header_def n1 n2) (simp_all add: asc_def is_digit_def)
  have "number_value 9007199254740992 = Fin 9007199254740992"
    using number_value_dyadic [of 4503599627370496 1] by simp
  then have t1: "trailing_number (kw_ti_le @ asc '' 9007199254740993'') = 9007199254740992"
    and t2: "trailing_number (kw_ti_le @ asc '' 9007199254740992'') = 9007199254740992"
    by (simp_all add: trailing_number_def trailing_integer_def n1 n2)
      (simp_all add: asc_def digits_val_def number_value_tie)
  have "[0..<3] = [0, 1, 2]"
    by (simp add: upt_rec)
  then show ?thesis
    unfolding ratio_columns_def by (simp add: tv r1 r2 t1 t2)
qed

lemma example_cells:
  "parsed_number (JNum (Fin 10)) = Some (Fin 10)"
  "parsed_number (JStr (asc ''28,5'')) = Some (Fin (57 / 2))"
  "parsed_number (JStr []) = None"
  "parsed_number (JStr (asc ''1,5'')) = Some (Fin (3 / 2))"
  "parsed_number (JStr (asc ''2'')) = Some (Fin 2)"
  "parsed_number (JNum (Fin 3)) = Some (Fin 3)"
  "parsed_number (JStr (asc ''x'')) = None"
  "parsed_number (JNum (Fin 4)) = Some (Fin 4)"
  by (simp_all add: parsed_number_def parse_eval asc_def)

lemma example_keys:
  "chapter_key 0 = asc ''c1''" "chapter_key (Suc 0) = asc ''c2''" "chapter_key 2 = asc ''c3''"
  "chapter_key (Suc (Suc 0)) = asc ''c3''"
  by (simp_all add: chapter_key_def digits10.simps asc_def)

theorem mergeMainAndRatios_records_witness:
  "\<exists>records. mergeMainAndRatios example_topics example_supp = Inr records
     \<and> length records = 3
     \<and> map tendetai records = [JStr (asc ''T1''), JStr (asc ''T2''), JStr (asc ''T3'')]
     \<and> tv (records ! 0) = Some (Fin 10)
     \<and> tv (records ! 1) = Some (Fin (57 / 2))
     \<and> tv (records ! 2) = None
     \<and> chapters (records ! 0) = [(asc ''c1'', Fin (3 / 2)), (asc ''c2'', Fin 2)]
     \<and> chapters (records ! 1) = [(asc ''c1'', Fin 3), (asc ''c3'', Fin 4)]
     \<and> chapters (records ! 2) = []"
proof -
  have "tvColIndex (supp_headers example_supp) \<noteq> None"
    by (simp add: tvColIndex_first example_tv_column)
  then obtain records where ok: "mergeMainAndRatios example_topics example_supp = Inr records"
    using example_supp_header
    by (simp add: mergeMainAndRatios_def Let_def example_supp_def supp_headers_def)
  note fields = mergeMainAndRatios_records [OF ok]
  have len: "length records = 3"
    using fields by (simp add: example_topics_def)
  have upt3: "[0..<3] = [0, Suc 0, 2]"
    by (simp add: upt_rec)
  have at0: "0 < length example_topics" and at1: "1 < length example_topics"
    and at2: "2 < length example_topics"
    by (simp_all add: example_topics_def)
  note r0 = fields [THEN conjunct2, THEN conjunct1, rule_format, OF at0]
    and r1 = fields [THEN conjunct2, THEN conjunct1, rule_format, OF at1]
    and r2 = fields [THEN conjunct2, THEN conjunct1, rule_format, OF at2]
  have titles: "map tendetai records = [JStr (asc ''T1''), JStr (asc ''T2''), JStr (asc ''T3'')]"
  proof (rule nth_equalityI)
    show "length (map tendetai records) = length [JStr (asc ''T1''), JStr (asc ''T2''), JStr (asc ''T3'')]"
      by (simp add: len)
    fix i
    assume "i < length (map tendetai records)"
    then have "i < 3" by (simp add: len)
    then have "i = 0 \<or> i = 1 \<or> i = 2" by auto
    then show "map tendetai records ! i = [JStr (asc ''T1''), JStr (asc ''T2''), JStr (asc ''T3'')] ! i"
      using r0 r1 r2 len by (auto simp: example_topics_def)
  qed
  have tv0: "tv (records ! 0) = Some (Fin 10)"
    using r0 by (simp add: example_tv_column example_supp_rows cell_at_def example_cells)
  have tv1: "tv (records ! 1) = Some (Fin (57 / 2))"
    using r1 by (simp add: example_tv_column example_supp_rows cell_at_def example_cells)
  have tv2: "tv (records ! 2) = None"
    using r2 by (simp add: example_tv_column example_supp_rows cell_at_def example_cells)
  have c0: "chapters (records ! 0) = [(asc ''c1'', Fin (3 / 2)), (asc ''c2'', Fin 2)]"
    using r0
    by (simp add: example_ratio_columns example_supp_rows upt3 cell_at_def example_cells
        example_keys)
  have c1: "chapters (records ! 1) = [(asc ''c1'', Fin 3), (asc ''c3'', Fin 4)]"
    using r1
    by (simp add: example_ratio_columns example_supp_rows upt3 cell_at_def example_cells
        example_keys)
  have c2: "chapters (records ! 2) = []"
    using r2 by (simp add: example_ratio_columns)
  show ?thesis
    by (intro exI [of _ records] conjI) (rule ok len titles tv0 tv1 tv2 c0 c1 c2)+
qed

text \<open>
  The claim as it is worded, with a finite number: a TV cell that reads "Infinity" parses
  to the number infinity, which is not NaN, and \<open>tv\<close> is set to it.
\<close>

theorem mergeMainAndRatios_finite_counterexample:
  "mergeMainAndRatios [hd example_topics] infinity_supp =
     Inr [\<lparr>hotenhv = JStr (asc ''A, B''), tendetai = JStr (asc ''T1''), sohocvien = Fin 2,
           nguoihuongdan = JStr [], tv = Some PosInf, chapters = []\<rparr>]
   \<and> \<not> is_finite PosInf
   \<and> \<not> (\<forall>records. mergeMainAndRatios [hd example_topics] infinity_supp = Inr records \<longrightarrow>
           (\<forall>r \<in> set records. \<forall>n. tv r = Some n \<longrightarrow> is_finite n))"
proof -
  have n_inf: "normalizeString (JStr (asc ''Infinity'')) = asc ''infinity''"
    by (simp add: normalize_eval)
  have "matchCount [asc ''TV'', kw_ti_le] [JStr (asc ''TV'')] < 2"
    and "matchCount [asc ''TV'', kw_ti_le] [JStr (asc ''Infinity'')] < 2"
    by (simp_all add: matchCount_def)
  then have header: "detectHeaderRow infinity_supp [asc ''TV'', kw_ti_le] = 0"
    by (intro detectHeaderRow_default) (auto simp: infinity_supp_def less_Suc_eq)
  have headers: "header_texts (infinity_supp ! 0) = [asc ''TV'']"
    by (simp add: infinity_supp_def header_texts_def js_or_def trim_def is_ws_def asc_def)
  have tvc: "tvColIndex [asc ''TV''] = Some 0"
    by (simp add: tvColIndex_first tv_column_def is_tv_header_def norm_TV) (simp add: asc_def)
  have ratio: "projectRatioColumns [asc ''TV''] = []"
    by (simp add: projectRatioColumns_Nil_iff is_ratio_header_def norm_TV) (simp add: asc_def)
  have inf: "parseFloat (replace_first 44 46 (asc ''Infinity'')) = PosInf"
    by (simp add: parse_eval asc_def)
  have run: "mergeMainAndRatios [hd example_topics] infinity_supp =
     Inr [\<lparr>hotenhv = JStr (asc ''A, B''), tendetai = JStr (asc ''T1''), sohocvien = Fin 2,
           nguoihuongdan = JStr [], tv = Some PosInf, chapters = []\<rparr>]"
    unfolding mergeMainAndRatios_def header Let_def headers tvc ratio
    by (simp add: infinity_supp_def example_topics_def tv_value_def chapter_values_def cell_at_def
        cell_number_def inf isNaN_def)
  have not_finite: "\<not> is_finite PosInf"
    by (simp add: is_finite_def)
  from run not_finite
  have "\<not> (\<forall>records. mergeMainAndRatios [hd example_topics] infinity_supp = Inr records \<longrightarrow>
           (\<forall>r \<in> set records. \<forall>n. tv r = Some n \<longrightarrow> is_finite n))"
    by auto
  with run not_finite show ?thesis
    by (intro conjI)
qed

section \<open>Properties of the main-roster aggregator\<close>

subsection \<open>Rows as objects\<close>





subsection \<open>The forward fill\<close>


lemma forward_fill_length [simp]: "length (forward_fill headers tc d rows) = length rows"
  by (induction rows arbitrary: d) (simp_all add: Let_def)


subsection \<open>Grouping\<close>

lemma first_appearance_Nil [simp]: "first_appearance [] = []"
  by (simp add: first_appearance_def)


lemma set_first_appearance [simp]: "set (first_appearance xs) = set xs"
  by (simp add: first_appearance_def)

lemma distinct_first_appearance [simp]: "distinct (first_appearance xs)"
  by (simp add: first_appearance_def)

lemma grouped_by_Nil [simp]: "grouped_by key [] = []"
  by (simp add: grouped_by_def)










subsection \<open>The aggregation\<close>

lemma processMainData_unfold:
  assumes "rawData \<noteq> []"
  shows "processMainData rawData =
     (if col_missing (topic_column rawData) \<or> col_missing (name_column rawData)
      then Inl MainColumnsMissing
      else
        case group_rows (the (topic_column rawData)) []
               (filter (\<lambda>obj. truthy (obj_get obj (the (name_column rawData))))
                  (forward_fill (main_headers rawData) (the (topic_column rawData)) (JStr [])
                     (main_rows rawData))) of
          Inl e \<Rightarrow> Inl e
        | Inr grouped \<Rightarrow>
            map_result
              (aggregate_group (the (topic_column rawData)) (the (name_column rawData))
                 (guide_column rawData))
              (object_values grouped))"
proof -
  have "\<not> length rawData
      \<le> detectHeaderRow rawData [kw_ten_de_tai, kw_ho_ten_hv, kw_nguoi_huong_dan]"
    using detectHeaderRow_lt [OF assms] by (simp add: not_le)
  then show ?thesis
    unfolding processMainData_def main_headers_def main_rows_def topic_column_def
      name_column_def guide_column_def Let_def
    by (simp del: findColumn.simps)
qed








subsection \<open>The examples\<close>

lemma main_header_row:
  assumes "rawData = [JStr kw_ten_de_tai, JStr kw_ho_ten_hv] # rows"
  shows "detectHeaderRow rawData [kw_ten_de_tai, kw_ho_ten_hv, kw_nguoi_huong_dan] = 0"
proof (rule detectHeaderRow_row0)
  show "rawData \<noteq> []" using assms by simp
  show "2 \<le> matchCount [kw_ten_de_tai, kw_ho_ten_hv, kw_nguoi_huong_dan] (rawData ! 0)"
    unfolding assms
    by (simp add: matchCount_def cell_matches_def norm_keywords Let_def) (simp add: asc_def)
qed

lemma two_column_roster:
  assumes "rawData = [JStr kw_ten_de_tai, JStr kw_ho_ten_hv] # rows"
  shows "main_headers rawData = [kw_ten_de_tai, kw_ho_ten_hv]"
    and "main_rows rawData = rows"
    and "topic_column rawData = Some kw_ten_de_tai"
    and "name_column rawData = Some kw_ho_ten_hv"
    and "guide_column rawData = None"
proof -
  show headers: "main_headers rawData = [kw_ten_de_tai, kw_ho_ten_hv]"
    unfolding main_headers_def main_header_row [OF assms] unfolding assms
    by (simp add: header_texts_def js_or_def trim_def is_ws_def kw_ten_de_tai_def kw_ho_ten_hv_def
        asc_def)
  show "main_rows rawData = rows"
    unfolding main_rows_def main_header_row [OF assms] unfolding assms by simp
  show "topic_column rawData = Some kw_ten_de_tai"
    unfolding topic_column_def headers
    by (simp add: norm_keywords Let_def) (simp add: asc_def)
  show "name_column rawData = Some kw_ho_ten_hv"
    unfolding name_column_def headers
    by (simp add: norm_keywords Let_def) (simp add: asc_def)
  show "guide_column rawData = None"
    unfolding guide_column_def headers
    by (simp add: norm_keywords Let_def) (simp add: asc_def)
qed

lemma keyword_distinct: "kw_ten_de_tai \<noteq> kw_ho_ten_hv" "kw_ho_ten_hv \<noteq> kw_ten_de_tai"
  by (simp_all add: kw_ten_de_tai_def kw_ho_ten_hv_def asc_def)

lemma two_column_object:
  "row_object [kw_ten_de_tai, kw_ho_ten_hv] row =
     [(kw_ten_de_tai, cell_at row 0), (kw_ho_ten_hv, cell_at row 1)]"
  by (simp add: row_object_def upt_rec keyword_distinct)

lemma two_column_fill:
  "forward_fill [kw_ten_de_tai, kw_ho_ten_hv] kw_ten_de_tai d [] = []"
  "forward_fill [kw_ten_de_tai, kw_ho_ten_hv] kw_ten_de_tai d (row # rows) =
     [(kw_ten_de_tai, if truthy (cell_at row 0) then cell_at row 0 else d),
      (kw_ho_ten_hv, cell_at row 1)]
     # forward_fill [kw_ten_de_tai, kw_ho_ten_hv] kw_ten_de_tai
         (if truthy (cell_at row 0) then cell_at row 0 else d) rows"
  by (simp_all add: two_column_object Let_def obj_get_def keyword_distinct)

lemma two_column_get:
  "obj_get [(kw_ten_de_tai, t), (kw_ho_ten_hv, n)] kw_ten_de_tai = t"
  "obj_get [(kw_ten_de_tai, t), (kw_ho_ten_hv, n)] kw_ho_ten_hv = n"
  by (simp_all add: obj_get_def keyword_distinct)

lemma cells2: "cell_at [a, b] 0 = a" "cell_at [a, b] 1 = b" "cell_at [a, b] (Suc 0) = b"
  by (simp_all add: cell_at_def)

















text \<open>
  Titles that are array indices: the groups come out in the numeric order of the titles,
  not in the order in which the titles first appear.
\<close>

lemma numeral_titles_run:
  "processMainData numeral_titles_main =
     Inr [\<lparr>ten_de_tai = JStr (asc ''1''), ho_ten_hv = asc ''B'', so_hoc_vien = 1,
           nguoi_huong_dan = JStr []\<rparr>,
          \<lparr>ten_de_tai = JStr (asc ''2''), ho_ten_hv = asc ''A'', so_hoc_vien = 1,
           nguoi_huong_dan = JStr []\<rparr>]"
proof -
  note cols = two_column_roster [OF numeral_titles_main_def]
  have "numeral_titles_main \<noteq> []" by (simp add: numeral_titles_main_def)
  note run = processMainData_unfold [OF this]
  let ?o1 = "[(kw_ten_de_tai, JStr (asc ''2'')), (kw_ho_ten_hv, JStr (asc ''A''))]"
  let ?o2 = "[(kw_ten_de_tai, JStr (asc ''1'')), (kw_ho_ten_hv, JStr (asc ''B''))]"
  have filled: "filter (\<lambda>obj. truthy (obj_get obj kw_ho_ten_hv))
     (forward_fill [kw_ten_de_tai, kw_ho_ten_hv] kw_ten_de_tai (JStr [])
        [[JStr (asc ''2''), JStr (asc ''A'')], [JStr (asc ''1''), JStr (asc ''B'')]])
     = [?o1, ?o2]"
    by (simp del: forward_fill.simps add: two_column_fill two_column_get cells2)
      (simp add: asc_def)
  have grouped: "group_rows kw_ten_de_tai [] [?o1, ?o2] = Inr [(asc ''2'', [?o1]), (asc ''1'', [?o2])]"
    by (simp add: group_step_def two_column_get Let_def prototype_keys_def asc_def)
  have index: "is_array_index (asc ''1'')" "is_array_index (asc ''2'')"
    by (simp_all add: is_array_index_def asc_def is_digit_def digits_val_def digits10.simps)
  have order: "digits_val (asc ''1'') = 1" "digits_val (asc ''2'') = 2"
    by (simp_all add: asc_def digits_val_def)
  have plain_values: "object_values [(asc ''2'', [?o1]), (asc ''1'', [?o2])] = [[?o2], [?o1]]"
    by (simp add: object_values_def index order)
  have records:
    "aggregate_group kw_ten_de_tai kw_ho_ten_hv None [?o2] =
       Inr \<lparr>ten_de_tai = JStr (asc ''1''), ho_ten_hv = asc ''B'', so_hoc_vien = 1,
             nguoi_huong_dan = JStr []\<rparr>"
    "aggregate_group kw_ten_de_tai kw_ho_ten_hv None [?o1] =
       Inr \<lparr>ten_de_tai = JStr (asc ''2''), ho_ten_hv = asc ''A'', so_hoc_vien = 1,
             nguoi_huong_dan = JStr []\<rparr>"
    by (simp_all add: aggregate_group_def student_names_def two_column_get col_missing_def js_or_def)
      (simp_all add: trim_def is_ws_def asc_def)
  show ?thesis
    unfolding run cols option.sel filled grouped
    by (simp add: col_missing_def plain_values records)
      (simp add: kw_ten_de_tai_def kw_ho_ten_hv_def)
qed



end
